theory Spec2Isabelle
  imports Main "HOL-Library.AList" "HOL-Library.Sublist"
begin

section \<open>tsddns: split-DNS synchronisation (main.go)\<close>

text \<open>
  The program reads a configuration (domain to list of nameserver references), resolves
  every reference to an address through a remote API, and submits the resulting table.
  The embedding follows \<^verbatim>\<open>main.go\<close> function by function.

  \<^item> A Go map is an association list with distinct keys, in the order in which
    \<^verbatim>\<open>range\<close> visits it; \<^verbatim>\<open>m[k] = v\<close> is \<open>AList.update k v m\<close>.
  \<^item> A Go \<^verbatim>\<open>string\<close> is a byte sequence, here a \<open>string\<close> (a list of 8-bit characters).
  \<^item> An \<^verbatim>\<open>error\<close> built by \<^verbatim>\<open>fmt.Errorf\<close> is the format string with its arguments;
    a function returning \<^verbatim>\<open>(T, error)\<close> returns \<open>error + T\<close>, with \<open>Inl\<close> the error.
  \<^item> Everything the program does to the outside (log lines, remote calls) is appended to
    a trace of events, threaded through every function that has effects. The trace also
    records each call of \<^verbatim>\<open>getDeviceIP\<close> with its arguments.
  \<^item> The libraries the program calls (file system, URL and JSON parsing, the HTTP
    transport, the API client) are parameters, collected in the record \<open>env\<close>. A remote
    call may answer differently each time: it receives the trace so far.
  \<^item> \<^verbatim>\<open>client\<close> is a pointer, and the accessors \<^verbatim>\<open>client.Devices()\<close> and
    \<^verbatim>\<open>client.DNS()\<close> of the API library may write to the client it points to (the
    library fills in defaults on first use). A function that calls an accessor therefore
    returns the client as it leaves it, and every later read sees that client.
  \<^item> \<^verbatim>\<open>range\<close> over a map visits it in an order of Go's choosing. The model visits a
    map in the order of its list; the one result that two loops over the same map share,
    \<open>needsDevices\<close>, is shown below not to depend on the order.
\<close>

subsection \<open>Data\<close>

type_synonym Config = "(string \<times> string list) list"

type_synonym SplitDNSRequest = "(string \<times> string list) list"

record ServiceInfo =
  svc_Name :: string
  Addrs :: "string list"

text \<open>The fields of \<^verbatim>\<open>tailscale.Device\<close> that the program reads.\<close>

record Device =
  dev_Name :: string
  Hostname :: string
  Addresses :: "string list"

text \<open>A parsed \<^verbatim>\<open>*url.URL\<close>, kept as the text its \<^verbatim>\<open>String\<close> method returns.\<close>

datatype URL = URL (url_String: string)

text \<open>\<^verbatim>\<open>clientcredentials.Config\<close>\<close>

record oauth_Config =
  ClientID :: string
  ClientSecret :: string
  TokenURL :: string

text \<open>
  An \<^verbatim>\<open>*http.Client\<close>: the zero client \<^verbatim>\<open>&http.Client{}\<close>, or the client that
  \<^verbatim>\<open>oauthConfig.Client\<close> builds.
\<close>

datatype http_Client = ZeroClient | OAuthClient oauth_Config

text \<open>The fields of \<^verbatim>\<open>tailscale.Client\<close> that the program sets or reads; \<open>None\<close> is \<^verbatim>\<open>nil\<close>.\<close>

record Client =
  Tailnet :: string
  BaseURL :: URL
  APIKey :: string
  HTTP :: "http_Client option"

record Request =
  Method :: string
  req_URL :: string
  BasicAuth :: "(string \<times> string) option"

record Response =
  StatusCode :: int
  Body :: string

datatype error = Errorf string "fmt_arg list" | External string
  and fmt_arg = Str string | Strs "string list" | Num int | Err error

datatype event =
    Printf string "fmt_arg list"
  | Println string
  | Fatalf string "fmt_arg list"
  | Devices_List
  | Http_Do http_Client Request
  | Enter_getDeviceIP string "Device list"
  | DNS_SetSplitDNS SplitDNSRequest

type_synonym trace = "event list"

record env =
  os_ReadFile :: "string \<Rightarrow> error + string"
  json_Unmarshal :: "string \<Rightarrow> error + Config"
  url_Parse :: "string \<Rightarrow> error + URL"
  http_NewRequest_error :: "string \<Rightarrow> string \<Rightarrow> error option"
  http_Do :: "trace \<Rightarrow> http_Client \<Rightarrow> Request \<Rightarrow> error + Response"
  json_Decode :: "string \<Rightarrow> error + ServiceInfo"
  client_Devices :: "trace \<Rightarrow> Client \<Rightarrow> Client"
  devices_List :: "trace \<Rightarrow> Client \<Rightarrow> error + Device list"
  client_DNS :: "trace \<Rightarrow> Client \<Rightarrow> Client"
  dns_SetSplitDNS :: "trace \<Rightarrow> Client \<Rightarrow> SplitDNSRequest \<Rightarrow> error option"

record flags =
  configPath :: string
  tailnet :: string
  apiKey :: string
  clientID :: string
  clientSecret :: string
  baseURL :: string
  interval :: int

text \<open>How the process stands: it has exited with a status, or it is still in the ticker loop.\<close>

datatype outcome = Exit nat | Running

subsection \<open>Library functions\<close>

text \<open>\<^verbatim>\<open>strings.HasPrefix\<close> and \<^verbatim>\<open>strings.TrimPrefix\<close>\<close>

definition HasPrefix :: "string \<Rightarrow> string \<Rightarrow> bool" where
  "HasPrefix s p = (length p \<le> length s \<and> take (length p) s = p)"

definition TrimPrefix :: "string \<Rightarrow> string \<Rightarrow> string" where
  "TrimPrefix s p = (if HasPrefix s p then drop (length p) s else s)"

text \<open>
  \<^verbatim>\<open>http.NewRequestWithContext(ctx, method, url, nil)\<close>: fails when the URL does not parse,
  and otherwise gives a request for that URL with no authorisation set.
\<close>

definition NewRequestWithContext :: "env \<Rightarrow> string \<Rightarrow> string \<Rightarrow> error + Request" where
  "NewRequestWithContext env method url =
     (case http_NewRequest_error env method url of
        Some err \<Rightarrow> Inl err
      | None \<Rightarrow> Inr \<lparr>Method = method, req_URL = url, BasicAuth = None\<rparr>)"

definition SetBasicAuth :: "Request \<Rightarrow> string \<Rightarrow> string \<Rightarrow> Request" where
  "SetBasicAuth req username password = req\<lparr>BasicAuth := Some (username, password)\<rparr>"

text \<open>\<^verbatim>\<open>http.StatusOK\<close>\<close>

definition StatusOK :: int where
  "StatusOK = 200"

subsection \<open>createClient\<close>

definition createClient ::
  "env \<Rightarrow> string \<Rightarrow> string \<Rightarrow> string \<Rightarrow> string \<Rightarrow> string \<Rightarrow> trace \<Rightarrow> (error + Client) \<times> trace" where
  "createClient env tailnet' apiKey' clientID' clientSecret' baseURL' tr =
     (case url_Parse env baseURL' of
        Inl err \<Rightarrow> (Inl (Errorf ''invalid base URL: %w'' [Err err]), tr)
      | Inr parsedURL \<Rightarrow>
          (let client = \<lparr>Tailnet = tailnet', BaseURL = parsedURL, APIKey = [], HTTP = None\<rparr> in
           if clientID' \<noteq> [] \<and> clientSecret' \<noteq> [] then
             (let oauthConfig = \<lparr>ClientID = clientID', ClientSecret = clientSecret',
                                 TokenURL = baseURL' @ ''/api/v2/oauth/token''\<rparr>
              in (Inr (client\<lparr>HTTP := Some (OAuthClient oauthConfig)\<rparr>),
                  tr @ [Println ''Using OAuth client credentials authentication'']))
           else if apiKey' \<noteq> [] then
             (Inr (client\<lparr>APIKey := apiKey'\<rparr>), tr @ [Println ''Using API key authentication''])
           else (Inl (Errorf ''need either api key or oauth creds'' []), tr)))"

subsection \<open>loadConfig\<close>

definition loadConfig :: "env \<Rightarrow> string \<Rightarrow> error + Config" where
  "loadConfig env path =
     (case os_ReadFile env path of
        Inl err \<Rightarrow> Inl (Errorf ''reading config file: %w'' [Err err])
      | Inr data \<Rightarrow>
          (case json_Unmarshal env data of
             Inl err \<Rightarrow> Inl (Errorf ''parsing config JSON: %w'' [Err err])
           | Inr cfg \<Rightarrow> Inr cfg))"

subsection \<open>getServiceIP and getDeviceIP\<close>

definition getServiceIP :: "env \<Rightarrow> Client \<Rightarrow> string \<Rightarrow> trace \<Rightarrow> (error + string) \<times> trace" where
  "getServiceIP env client serviceName tr =
     (let url = url_String (BaseURL client) @ ''/api/v2/tailnet/'' @ Tailnet client
                  @ ''/services/'' @ serviceName @ ''/''
      in case NewRequestWithContext env ''GET'' url of
           Inl err \<Rightarrow> (Inl err, tr)
         | Inr req0 \<Rightarrow>
             (case (if APIKey client \<noteq> [] then
                      Some (SetBasicAuth req0 (APIKey client) [], ZeroClient)
                    else (case HTTP client of
                            Some c \<Rightarrow> Some (req0, c)
                          | None \<Rightarrow> None)) of
                None \<Rightarrow> (Inl (Errorf ''no auth configured'' []), tr)
              | Some (req, httpClient) \<Rightarrow>
                  (let tr' = tr @ [Http_Do httpClient req] in
                   case http_Do env tr httpClient req of
                     Inl err \<Rightarrow> (Inl err, tr')
                   | Inr resp \<Rightarrow>
                       if StatusCode resp \<noteq> StatusOK then
                         (Inl (Errorf ''API returned status %d'' [Num (StatusCode resp)]), tr')
                       else
                         (case json_Decode env (Body resp) of
                            Inl err \<Rightarrow> (Inl err, tr')
                          | Inr svcInfo \<Rightarrow>
                              (case Addrs svcInfo of
                                 [] \<Rightarrow> (Inl (Errorf ''service %s has no addresses''
                                                [Str serviceName]), tr')
                               | a # _ \<Rightarrow> (Inr a, tr'))))))"

fun getDeviceIP :: "string \<Rightarrow> Device list \<Rightarrow> error + string" where
  "getDeviceIP hostname [] = Inl (Errorf ''device %s not found'' [Str hostname])"
| "getDeviceIP hostname (device # devices) =
     (if Hostname device = hostname \<or> dev_Name device = hostname
         \<or> HasPrefix (dev_Name device) (hostname @ ''.'') then
        (case Addresses device of
           [] \<Rightarrow> Inl (Errorf ''device %s has no addresses'' [Str hostname])
         | a # _ \<Rightarrow> Inr a)
      else getDeviceIP hostname devices)"

subsection \<open>resolveSplitDNS\<close>

text \<open>The first pair of loops: is there a reference with the prefix \<^verbatim>\<open>device:\<close>?\<close>

fun needsDevices_inner :: "string list \<Rightarrow> bool" where
  "needsDevices_inner [] = False"
| "needsDevices_inner (ns # nameservers) =
     (if HasPrefix ns ''device:'' then True else needsDevices_inner nameservers)"

fun needsDevices :: "Config \<Rightarrow> bool" where
  "needsDevices [] = False"
| "needsDevices ((domain, nameservers) # cfg) =
     (if needsDevices_inner nameservers then True else needsDevices cfg)"

text \<open>The inner loop of the second pair, over the references of one domain.\<close>

fun resolveNameservers ::
  "env \<Rightarrow> Client \<Rightarrow> Device list \<Rightarrow> string \<Rightarrow> string list \<Rightarrow> string list \<Rightarrow> trace
     \<Rightarrow> (error + string list) \<times> trace" where
  "resolveNameservers env client devices domain [] resolved tr = (Inr resolved, tr)"
| "resolveNameservers env client devices domain (ns # nameservers) resolved tr =
     (if HasPrefix ns ''svc:'' then
        (case getServiceIP env client ns
                (tr @ [Printf ''Resolving service %s for domain %s...'' [Str ns, Str domain]]) of
           (Inl err, tr') \<Rightarrow> (Inl (Errorf ''resolving service %s: %w'' [Str ns, Err err]), tr')
         | (Inr ip, tr') \<Rightarrow>
             resolveNameservers env client devices domain nameservers (resolved @ [ip])
               (tr' @ [Printf ''  Resolved %s to %s'' [Str ns, Str ip]]))
      else if HasPrefix ns ''device:'' then
        (let deviceName = TrimPrefix ns ''device:'';
             tr' = tr @ [Printf ''Resolving device %s for domain %s...'' [Str deviceName, Str domain],
                         Enter_getDeviceIP deviceName devices]
         in case getDeviceIP deviceName devices of
              Inl err \<Rightarrow> (Inl (Errorf ''resolving device %s: %w'' [Str deviceName, Err err]), tr')
            | Inr ip \<Rightarrow>
                resolveNameservers env client devices domain nameservers (resolved @ [ip])
                  (tr' @ [Printf ''  Resolved device:%s to %s'' [Str deviceName, Str ip]]))
      else resolveNameservers env client devices domain nameservers (resolved @ [ns]) tr)"

text \<open>The outer loop of the second pair, over the domains.\<close>

fun resolveDomains ::
  "env \<Rightarrow> Client \<Rightarrow> Device list \<Rightarrow> Config \<Rightarrow> SplitDNSRequest \<Rightarrow> trace
     \<Rightarrow> (error + SplitDNSRequest) \<times> trace" where
  "resolveDomains env client devices [] splitDNS tr = (Inr splitDNS, tr)"
| "resolveDomains env client devices ((domain, nameservers) # cfg) splitDNS tr =
     (case resolveNameservers env client devices domain nameservers [] tr of
        (Inl err, tr') \<Rightarrow> (Inl err, tr')
      | (Inr resolved, tr') \<Rightarrow>
          resolveDomains env client devices cfg (AList.update domain resolved splitDNS) tr')"

definition resolveSplitDNS ::
  "env \<Rightarrow> Client \<Rightarrow> Config \<Rightarrow> trace \<Rightarrow> (error + SplitDNSRequest) \<times> trace \<times> Client" where
  "resolveSplitDNS env client cfg tr =
     (if needsDevices cfg then
        (let client' = client_Devices env tr client in
         case devices_List env tr client' of
           Inl err \<Rightarrow>
             (Inl (Errorf ''listing devices: %w'' [Err err]), tr @ [Devices_List], client')
         | Inr devs \<Rightarrow>
             (case resolveDomains env client' devs cfg [] (tr @ [Devices_List]) of
                (r, tr') \<Rightarrow> (r, tr', client')))
      else (case resolveDomains env client [] cfg [] tr of (r, tr') \<Rightarrow> (r, tr', client)))"

subsection \<open>updateDNS\<close>

definition updateDNS ::
  "env \<Rightarrow> Client \<Rightarrow> Config \<Rightarrow> trace \<Rightarrow> error option \<times> trace \<times> Client" where
  "updateDNS env client cfg tr =
     (case resolveSplitDNS env client cfg tr of
        (Inl err, tr1, client1) \<Rightarrow>
          (Some (Errorf ''resolving services: %w'' [Err err]), tr1, client1)
      | (Inr splitDNS, tr1, client1) \<Rightarrow>
          (let tr2 = tr1 @ [Printf ''Updating split DNS configuration with %d domains...''
                              [Num (int (length splitDNS))]];
               tr3 = tr2 @ map (\<lambda>(domain, nameservers).
                                  Printf ''  %s -> %v'' [Str domain, Strs nameservers]) splitDNS;
               client2 = client_DNS env tr3 client1;
               tr4 = tr3 @ [DNS_SetSplitDNS splitDNS]
           in case dns_SetSplitDNS env tr3 client2 splitDNS of
                Some err \<Rightarrow> (Some (Errorf ''updating split DNS: %w'' [Err err]), tr4, client2)
              | None \<Rightarrow>
                  (None, tr4 @ [Println ''Successfully updated split DNS configuration''],
                   client2)))"

subsection \<open>main\<close>

text \<open>
  The closure \<^verbatim>\<open>runUpdate\<close>, and the loop over \<^verbatim>\<open>ticker.C\<close>. Both work on the log and
  on the client that the captured pointer refers to. The channel is never closed, so the
  loop has no exit; \<open>ticker_loop\<close> runs it for the ticks that have arrived so far.
\<close>

definition runUpdate :: "env \<Rightarrow> Config \<Rightarrow> trace \<times> Client \<Rightarrow> trace \<times> Client" where
  "runUpdate env cfg st =
     (case st of
        (tr, client) \<Rightarrow>
          (case updateDNS env client cfg tr of
             (Some err, tr', client') \<Rightarrow>
               (tr' @ [Printf ''Error updating DNS: %v'' [Err err]], client')
           | (None, tr', client') \<Rightarrow> (tr', client')))"

fun ticker_loop :: "env \<Rightarrow> Config \<Rightarrow> nat \<Rightarrow> trace \<times> Client \<Rightarrow> trace \<times> Client" where
  "ticker_loop env cfg 0 st = st"
| "ticker_loop env cfg (Suc n) st = ticker_loop env cfg n (runUpdate env cfg st)"

text \<open>
  \<open>main env fl ticks\<close>: the state of the process once \<open>ticks\<close> ticks of the ticker have been
  served (the number plays no part when the process does not reach the loop).
  \<^verbatim>\<open>log.Fatalf\<close> writes the line and exits with status 1; returning from \<^verbatim>\<open>main\<close> exits
  with status 0.
\<close>

definition main :: "env \<Rightarrow> flags \<Rightarrow> nat \<Rightarrow> outcome \<times> trace" where
  "main env fl ticks =
     (case loadConfig env (configPath fl) of
        Inl err \<Rightarrow> (Exit 1, [Fatalf ''Failed to load config: %v'' [Err err]])
      | Inr cfg \<Rightarrow>
          (case createClient env (tailnet fl) (apiKey fl) (clientID fl) (clientSecret fl)
                  (baseURL fl) [] of
             (Inl err, tr) \<Rightarrow> (Exit 1, tr @ [Fatalf ''Failed to create client: %v'' [Err err]])
           | (Inr client, tr) \<Rightarrow>
               if interval fl > 0 then
                 (Running,
                  fst (ticker_loop env cfg ticks
                         (runUpdate env cfg
                            (tr @ [Printf ''Running in daemon mode with interval: %v''
                                     [Num (interval fl)]], client))))
               else
                 (case updateDNS env client cfg tr of
                    (Some err, tr', client') \<Rightarrow>
                      (Exit 1, tr' @ [Fatalf ''Failed to update DNS: %v'' [Err err]])
                  | (None, tr', client') \<Rightarrow> (Exit 0, tr'))))"

section \<open>Notions used in the statements\<close>

text \<open>The URL that \<^verbatim>\<open>getServiceIP\<close> builds for a service name.\<close>

definition service_url :: "Client \<Rightarrow> string \<Rightarrow> string" where
  "service_url client serviceName =
     url_String (BaseURL client) @ ''/api/v2/tailnet/'' @ Tailnet client
       @ ''/services/'' @ serviceName @ ''/''"

text \<open>All references of a configuration, in the order in which the loops meet them.\<close>

definition refs :: "Config \<Rightarrow> string list" where
  "refs cfg = concat (map snd cfg)"

text \<open>
  A service lookup succeeds when the request is answered with status 200 and a body that
  decodes to a non-empty address list. \<open>lookups_succeed env h es\<close>: every request among the
  events \<open>es\<close>, sent after the history \<open>h\<close> and the events before it, succeeded.
\<close>

definition lookup_succeeds :: "env \<Rightarrow> trace \<Rightarrow> http_Client \<Rightarrow> Request \<Rightarrow> bool" where
  "lookup_succeeds env h c req =
     (case http_Do env h c req of
        Inl err \<Rightarrow> False
      | Inr resp \<Rightarrow>
          StatusCode resp = StatusOK \<and>
          (case json_Decode env (Body resp) of
             Inl err \<Rightarrow> False
           | Inr svcInfo \<Rightarrow> Addrs svcInfo \<noteq> []))"

fun lookups_succeed :: "env \<Rightarrow> trace \<Rightarrow> trace \<Rightarrow> bool" where
  "lookups_succeed env h [] = True"
| "lookups_succeed env h (Http_Do c req # es) =
     (lookup_succeeds env h c req \<and> lookups_succeed env (h @ [Http_Do c req]) es)"
| "lookups_succeed env h (e # es) = lookups_succeed env (h @ [e]) es"

text \<open>
  What a trace holds: the URLs of the requests sent, the calls of \<^verbatim>\<open>getDeviceIP\<close> with
  their arguments, and the tables submitted.
\<close>

fun lookup_urls :: "trace \<Rightarrow> string list" where
  "lookup_urls [] = []"
| "lookup_urls (Http_Do c req # es) = req_URL req # lookup_urls es"
| "lookup_urls (e # es) = lookup_urls es"

fun device_calls :: "trace \<Rightarrow> (string \<times> Device list) list" where
  "device_calls [] = []"
| "device_calls (Enter_getDeviceIP name devs # es) = (name, devs) # device_calls es"
| "device_calls (e # es) = device_calls es"

fun submitted :: "trace \<Rightarrow> SplitDNSRequest list" where
  "submitted [] = []"
| "submitted (DNS_SetSplitDNS t # es) = t # submitted es"
| "submitted (e # es) = submitted es"

text \<open>
  The two halves of \<^verbatim>\<open>getServiceIP\<close>: the request it sends with the client that sends it,
  and what it makes of the answer.
\<close>

definition service_request :: "env \<Rightarrow> Client \<Rightarrow> string \<Rightarrow> error + Request \<times> http_Client" where
  "service_request env client name =
     (case http_NewRequest_error env ''GET'' (service_url client name) of
        Some err \<Rightarrow> Inl err
      | None \<Rightarrow>
          if APIKey client \<noteq> [] then
            Inr (\<lparr>Method = ''GET'', req_URL = service_url client name,
                   BasicAuth = Some (APIKey client, [])\<rparr>, ZeroClient)
          else (case HTTP client of
                  Some c \<Rightarrow> Inr (\<lparr>Method = ''GET'', req_URL = service_url client name,
                                    BasicAuth = None\<rparr>, c)
                | None \<Rightarrow> Inl (Errorf ''no auth configured'' [])))"

definition service_answer :: "env \<Rightarrow> string \<Rightarrow> error + Response \<Rightarrow> error + string" where
  "service_answer env name r =
     (case r of
        Inl err \<Rightarrow> Inl err
      | Inr resp \<Rightarrow>
          if StatusCode resp \<noteq> StatusOK then
            Inl (Errorf ''API returned status %d'' [Num (StatusCode resp)])
          else (case json_Decode env (Body resp) of
                  Inl err \<Rightarrow> Inl err
                | Inr svcInfo \<Rightarrow>
                    (case Addrs svcInfo of
                       [] \<Rightarrow> Inl (Errorf ''service %s has no addresses'' [Str name])
                     | a # x \<Rightarrow> Inr a)))"

definition is_svc :: "string \<Rightarrow> bool" where
  "is_svc ns = HasPrefix ns ''svc:''"

definition is_device :: "string \<Rightarrow> bool" where
  "is_device ns = HasPrefix ns ''device:''"

text \<open>The kinds of event that the two loops of the pass emit.\<close>

definition pass_event :: "event \<Rightarrow> bool" where
  "pass_event e = (case e of Printf f args \<Rightarrow> True | Http_Do c req \<Rightarrow> True
                   | Enter_getDeviceIP n ds \<Rightarrow> True | _ \<Rightarrow> False)"

text \<open>The events that a run from the trace \<open>tr\<close> to the trace \<open>tr'\<close> has added.\<close>

definition emitted :: "trace \<Rightarrow> trace \<Rightarrow> trace" where
  "emitted tr tr' = drop (length tr) tr'"

text \<open>A table with the domains of the configuration, in order, and one address per reference.\<close>

definition resolved_table :: "Config \<Rightarrow> SplitDNSRequest \<Rightarrow> bool" where
  "resolved_table cfg t =
     list_all2 (\<lambda>(domain, nss) (domain', ips). domain' = domain \<and> length ips = length nss) cfg t"

text \<open>
  The first address of the first device that a name matches, by hostname, by display name,
  or by display name up to a dot.
\<close>

definition matching_address :: "string \<Rightarrow> Device list \<Rightarrow> string option" where
  "matching_address name devs =
     (case find (\<lambda>d. Hostname d = name \<or> dev_Name d = name
                      \<or> HasPrefix (dev_Name d) (name @ ''.'')) devs of
        None \<Rightarrow> None
      | Some d \<Rightarrow> (case Addresses d of [] \<Rightarrow> None | a # x \<Rightarrow> Some a))"

text \<open>
  The address that stands in the table for a reference: for a device reference the address
  matched by the reference without its prefix, for a literal the reference itself. (The
  address of a service reference is the answer to its lookup, which depends on the moment
  of the lookup; \<open>lookup_urls\<close> and \<open>lookups_succeed\<close> speak about it.) \<open>resolved_refs\<close>
  asks this of every reference of every domain, in order.
\<close>

definition resolved_ref :: "Device list \<Rightarrow> string \<Rightarrow> string \<Rightarrow> bool" where
  "resolved_ref devs ns ip =
     (if HasPrefix ns ''svc:'' then True
      else if HasPrefix ns ''device:'' then
        matching_address (TrimPrefix ns ''device:'') devs = Some ip
      else ip = ns)"

definition resolved_refs :: "Device list \<Rightarrow> Config \<Rightarrow> SplitDNSRequest \<Rightarrow> bool" where
  "resolved_refs devs cfg t =
     list_all2 (\<lambda>(domain, nss) (domain', ips).
                  domain' = domain \<and> list_all2 (resolved_ref devs) nss ips) cfg t"

subsection \<open>Examples\<close>

text \<open>
  The mock server of the repository's tests: the service \<^verbatim>\<open>svc:test-service\<close> of the
  tailnet \<^verbatim>\<open>test\<close> (and of the default tailnet \<^verbatim>\<open>-\<close>) has the address 100.64.0.1, every
  other path is answered with status 404, and the device list holds one device with
  hostname \<^verbatim>\<open>test-device\<close>. The accessors of the library put the default tailnet
  \<^verbatim>\<open>-\<close> into a client whose tailnet is empty.
\<close>

definition example_client :: Client where
  "example_client = \<lparr>Tailnet = ''test'', BaseURL = URL ''https://api.tailscale.com'',
                      APIKey = ''test-key'', HTTP = None\<rparr>"

definition example_env :: env where
  "example_env =
     \<lparr>os_ReadFile = (\<lambda>path. if path = ''/config.json'' then Inr ''config''
                              else Inl (External ''no such file or directory'')),
      json_Unmarshal = (\<lambda>data. if data = ''config''
                                 then Inr [(''service.example.com'', [''svc:test-service''])]
                                 else Inl (External ''invalid character'')),
      url_Parse = (\<lambda>s. if s = ''://invalid-url'' then Inl (External ''missing protocol scheme'')
                         else Inr (URL s)),
      http_NewRequest_error = (\<lambda>method url. None),
      http_Do = (\<lambda>h c req.
         if req_URL req = ''https://api.tailscale.com/api/v2/tailnet/test/services/svc:test-service/''
            \<or> req_URL req = ''https://api.tailscale.com/api/v2/tailnet/-/services/svc:test-service/''
         then Inr \<lparr>StatusCode = 200, Body = ''test-service''\<rparr>
         else Inr \<lparr>StatusCode = 404, Body = []\<rparr>),
      json_Decode = (\<lambda>body. if body = ''test-service''
                              then Inr \<lparr>svc_Name = ''svc:test-service'', Addrs = [''100.64.0.1'']\<rparr>
                              else Inl (External ''EOF'')),
      client_Devices = (\<lambda>h c. if Tailnet c = [] then c\<lparr>Tailnet := ''-''\<rparr> else c),
      devices_List = (\<lambda>h c. Inr [\<lparr>dev_Name = [], Hostname = ''test-device'',
                                     Addresses = [''100.64.0.2'']\<rparr>]),
      client_DNS = (\<lambda>h c. if Tailnet c = [] then c\<lparr>Tailnet := ''-''\<rparr> else c),
      dns_SetSplitDNS = (\<lambda>h c t. None)\<rparr>"

text \<open>Two devices: the first has the name as a prefix of its display name, the second as its hostname.\<close>

definition example_devices :: "Device list" where
  "example_devices =
     [\<lparr>dev_Name = ''my-router.example.ts.net'', Hostname = ''laptop'',
        Addresses = [''100.64.0.9'']\<rparr>,
      \<lparr>dev_Name = ''gateway.example.ts.net'', Hostname = ''my-router'',
        Addresses = [''100.64.0.5'']\<rparr>]"

subsection \<open>Device resolution by precedence\<close>

definition first_address :: "string \<Rightarrow> Device \<Rightarrow> error + string" where
  "first_address hostname device =
     (case Addresses device of
        [] \<Rightarrow> Inl (Errorf ''device %s has no addresses'' [Str hostname])
      | a # x \<Rightarrow> Inr a)"

text \<open>
  Device resolution as the specification words it: a device whose hostname is equal comes
  first, then one whose display name is equal, then one whose display name starts with
  the hostname and a dot.
\<close>

definition spec_getDeviceIP :: "string \<Rightarrow> Device list \<Rightarrow> error + string" where
  "spec_getDeviceIP hostname devices =
     (case find (\<lambda>d. Hostname d = hostname) devices of
        Some d \<Rightarrow> first_address hostname d
      | None \<Rightarrow>
          (case find (\<lambda>d. dev_Name d = hostname) devices of
             Some d \<Rightarrow> first_address hostname d
           | None \<Rightarrow>
               (case find (\<lambda>d. HasPrefix (dev_Name d) (hostname @ ''.'')) devices of
                  Some d \<Rightarrow> first_address hostname d
                | None \<Rightarrow> Inl (Errorf ''device %s not found'' [Str hostname]))))"

text \<open>A server that answers every lookup with status 200 and no address.\<close>

definition example_env_empty :: env where
  "example_env_empty =
     example_env\<lparr>http_Do := \<lambda>h c req. Inr \<lparr>StatusCode = 200, Body = ''no-addrs''\<rparr>,
                 json_Decode := \<lambda>body. Inr \<lparr>svc_Name = ''svc:test-service'', Addrs = []\<rparr>\<rparr>"

text \<open>A request constructor that refuses the URL of the service \<^verbatim>\<open>svc:%zz\<close>.\<close>

definition example_env_bad_url :: env where
  "example_env_bad_url =
     example_env\<lparr>http_NewRequest_error := \<lambda>method url.
        if url = ''https://api.tailscale.com/api/v2/tailnet/test/services/svc:%zz/''
        then Some (External ''invalid URL escape'') else None\<rparr>"

definition example_flags :: flags where
  "example_flags = \<lparr>configPath = ''/config.json'', tailnet = ''test'', apiKey = ''test-key'',
                     clientID = [], clientSecret = [], baseURL = ''https://api.tailscale.com'',
                     interval = 0\<rparr>"

section \<open>Properties\<close>

subsection \<open>Prefixes and projections\<close>

lemma HasPrefix_iff: "HasPrefix s p \<longleftrightarrow> (\<exists>r. s = p @ r)"
  unfolding HasPrefix_def
  by (metis append_eq_conv_conj append_take_drop_id le_add1 length_append)

lemma HasPrefix_append [simp]: "HasPrefix (p @ r) p"
  by (simp add: HasPrefix_iff)

lemma TrimPrefix_append [simp]: "TrimPrefix (p @ r) p = r"
  by (simp add: TrimPrefix_def)

lemma svc_not_device: "HasPrefix ns ''svc:'' \<Longrightarrow> \<not> HasPrefix ns ''device:''"
  by (auto simp: HasPrefix_iff)

lemma lookup_urls_append [simp]: "lookup_urls (xs @ ys) = lookup_urls xs @ lookup_urls ys"
  by (induction xs rule: lookup_urls.induct) auto

lemma device_calls_append [simp]: "device_calls (xs @ ys) = device_calls xs @ device_calls ys"
  by (induction xs rule: device_calls.induct) auto

lemma submitted_append [simp]: "submitted (xs @ ys) = submitted xs @ submitted ys"
  by (induction xs rule: submitted.induct) auto

lemma lookups_succeed_append [simp]:
  "lookups_succeed env h (xs @ ys) = (lookups_succeed env h xs \<and> lookups_succeed env (h @ xs) ys)"
  by (induction env h xs rule: lookups_succeed.induct) auto

subsection \<open>The service lookup\<close>

lemma getServiceIP_alt:
  "getServiceIP env client name tr =
     (case service_request env client name of
        Inl err \<Rightarrow> (Inl err, tr)
      | Inr (req, c) \<Rightarrow> (service_answer env name (http_Do env tr c req), tr @ [Http_Do c req]))"
proof (cases "http_NewRequest_error env ''GET'' (service_url client name)")
  case (Some err)
  then show ?thesis
    by (simp add: getServiceIP_def service_request_def NewRequestWithContext_def service_url_def)
next
  case None
  note nr = None
  show ?thesis
  proof (cases "APIKey client = []")
    case False
    with nr show ?thesis
      by (simp add: getServiceIP_def service_request_def service_answer_def
          NewRequestWithContext_def SetBasicAuth_def service_url_def Let_def
          split: sum.split list.split)
  next
    case True
    note ak = True
    show ?thesis
    proof (cases "HTTP client")
      case None
      with nr ak show ?thesis
        by (simp add: getServiceIP_def service_request_def NewRequestWithContext_def service_url_def)
    next
      case (Some c)
      with nr ak show ?thesis
        by (simp add: getServiceIP_def service_request_def service_answer_def
            NewRequestWithContext_def service_url_def Let_def
            split: sum.split list.split)
    qed
  qed
qed

lemma getServiceIP_sent:
  assumes "snd (getServiceIP env client name tr) = tr @ [Http_Do c req]"
  shows "fst (getServiceIP env client name tr) = service_answer env name (http_Do env tr c req)"
proof (cases "service_request env client name")
  case (Inl err)
  with assms show ?thesis by (simp add: getServiceIP_alt)
next
  case (Inr p)
  with assms show ?thesis by (cases p) (simp add: getServiceIP_alt)
qed

subsection \<open>The inner loop\<close>

text \<open>The runs of the inner loop, as an induction rule: one case per way through the body.\<close>

lemma resolveNameservers_cases [case_names empty unsent failed resolved nodevice device literal]:
  assumes "\<And>res tr. P [] res tr (Inr res, tr)"
    and "\<And>ns nss res tr err.
           HasPrefix ns ''svc:'' \<Longrightarrow> service_request env client ns = Inl err \<Longrightarrow>
           P (ns # nss) res tr
             (Inl (Errorf ''resolving service %s: %w'' [Str ns, Err err]),
              tr @ [Printf ''Resolving service %s for domain %s...'' [Str ns, Str domain]])"
    and "\<And>ns nss res tr req c err.
           HasPrefix ns ''svc:'' \<Longrightarrow> service_request env client ns = Inr (req, c) \<Longrightarrow>
           service_answer env ns
             (http_Do env (tr @ [Printf ''Resolving service %s for domain %s...'' [Str ns, Str domain]])
                c req) = Inl err \<Longrightarrow>
           P (ns # nss) res tr
             (Inl (Errorf ''resolving service %s: %w'' [Str ns, Err err]),
              tr @ [Printf ''Resolving service %s for domain %s...'' [Str ns, Str domain],
                    Http_Do c req])"
    and "\<And>ns nss res tr req c ip out.
           HasPrefix ns ''svc:'' \<Longrightarrow> service_request env client ns = Inr (req, c) \<Longrightarrow>
           service_answer env ns
             (http_Do env (tr @ [Printf ''Resolving service %s for domain %s...'' [Str ns, Str domain]])
                c req) = Inr ip \<Longrightarrow>
           P nss (res @ [ip])
             (tr @ [Printf ''Resolving service %s for domain %s...'' [Str ns, Str domain],
                    Http_Do c req, Printf ''  Resolved %s to %s'' [Str ns, Str ip]]) out \<Longrightarrow>
           P (ns # nss) res tr out"
    and "\<And>ns nss res tr err.
           \<not> HasPrefix ns ''svc:'' \<Longrightarrow> HasPrefix ns ''device:'' \<Longrightarrow>
           getDeviceIP (TrimPrefix ns ''device:'') devices = Inl err \<Longrightarrow>
           P (ns # nss) res tr
             (Inl (Errorf ''resolving device %s: %w'' [Str (TrimPrefix ns ''device:''), Err err]),
              tr @ [Printf ''Resolving device %s for domain %s...''
                      [Str (TrimPrefix ns ''device:''), Str domain],
                    Enter_getDeviceIP (TrimPrefix ns ''device:'') devices])"
    and "\<And>ns nss res tr ip out.
           \<not> HasPrefix ns ''svc:'' \<Longrightarrow> HasPrefix ns ''device:'' \<Longrightarrow>
           getDeviceIP (TrimPrefix ns ''device:'') devices = Inr ip \<Longrightarrow>
           P nss (res @ [ip])
             (tr @ [Printf ''Resolving device %s for domain %s...''
                      [Str (TrimPrefix ns ''device:''), Str domain],
                    Enter_getDeviceIP (TrimPrefix ns ''device:'') devices,
                    Printf ''  Resolved device:%s to %s'' [Str (TrimPrefix ns ''device:''), Str ip]])
             out \<Longrightarrow>
           P (ns # nss) res tr out"
    and "\<And>ns nss res tr out.
           \<not> HasPrefix ns ''svc:'' \<Longrightarrow> \<not> HasPrefix ns ''device:'' \<Longrightarrow>
           P nss (res @ [ns]) tr out \<Longrightarrow> P (ns # nss) res tr out"
  shows "P nss res tr (resolveNameservers env client devices domain nss res tr)"
proof (induction nss arbitrary: res tr)
  case Nil
  show ?case by (simp add: assms(1))
next
  case (Cons ns nss)
  show ?case
  proof (cases "HasPrefix ns ''svc:''")
    case True
    note svc = True
    show ?thesis
    proof (cases "service_request env client ns")
      case (Inl err)
      with svc assms(2) [OF svc Inl] show ?thesis
        by (simp add: getServiceIP_alt)
    next
      case (Inr p)
      obtain req c where p: "p = (req, c)" by (cases p)
      note sr = Inr [unfolded p]
      show ?thesis
      proof (cases "service_answer env ns
             (http_Do env (tr @ [Printf ''Resolving service %s for domain %s...'' [Str ns, Str domain]])
                c req)")
        case (Inl err)
        with svc sr assms(3) [OF svc sr Inl] show ?thesis
          by (simp add: getServiceIP_alt)
      next
        case (Inr ip)
        with svc sr assms(4) [OF svc sr Inr Cons.IH] show ?thesis
          by (simp add: getServiceIP_alt)
      qed
    qed
  next
    case False
    note nsvc = False
    show ?thesis
    proof (cases "HasPrefix ns ''device:''")
      case True
      note dev = True
      show ?thesis
      proof (cases "getDeviceIP (TrimPrefix ns ''device:'') devices")
        case (Inl err)
        with nsvc dev assms(5) [OF nsvc dev Inl] show ?thesis
          by (simp add: Let_def)
      next
        case (Inr ip)
        with nsvc dev assms(6) [OF nsvc dev Inr Cons.IH] show ?thesis
          by (simp add: Let_def)
      qed
    next
      case False
      with nsvc assms(7) [OF nsvc False Cons.IH] show ?thesis
        by simp
    qed
  qed
qed

lemma is_svc_not_device: "is_svc ns \<Longrightarrow> \<not> is_device ns"
  by (simp add: is_svc_def is_device_def svc_not_device)

lemma service_request_url:
  "service_request env client name = Inr (req, c) \<Longrightarrow> req_URL req = service_url client name"
  by (auto simp: service_request_def split: option.splits if_splits)

lemma service_answer_Inr:
  "service_answer env name (http_Do env h c req) = Inr ip \<Longrightarrow> lookup_succeeds env h c req"
  by (auto simp: service_answer_def lookup_succeeds_def split: sum.splits if_splits list.splits)

lemma rn_events:
  "\<exists>evs. snd (resolveNameservers env client devices domain nss res tr) = tr @ evs
         \<and> list_all pass_event evs"
  by (rule resolveNameservers_cases
      [where P = "\<lambda>nss res tr out. \<exists>evs. snd out = tr @ evs \<and> list_all pass_event evs"])
    (auto simp: pass_event_def)

lemma rn_urls:
  "\<exists>evs. snd (resolveNameservers env client devices domain nss res tr) = tr @ evs
     \<and> prefix (lookup_urls evs) (map (service_url client) (filter is_svc nss))
     \<and> (\<forall>ips. fst (resolveNameservers env client devices domain nss res tr) = Inr ips
          \<longrightarrow> lookup_urls evs = map (service_url client) (filter is_svc nss))"
  by (rule resolveNameservers_cases
      [where P = "\<lambda>nss res tr out. \<exists>evs. snd out = tr @ evs
         \<and> prefix (lookup_urls evs) (map (service_url client) (filter is_svc nss))
         \<and> (\<forall>ips. fst out = Inr ips
               \<longrightarrow> lookup_urls evs = map (service_url client) (filter is_svc nss))"])
    (auto simp: is_svc_def service_request_url)

lemma rn_device_calls:
  "\<exists>evs. snd (resolveNameservers env client devices domain nss res tr) = tr @ evs
     \<and> prefix (device_calls evs)
          (map (\<lambda>ns. (TrimPrefix ns ''device:'', devices)) (filter is_device nss))
     \<and> (\<forall>ips. fst (resolveNameservers env client devices domain nss res tr) = Inr ips
          \<longrightarrow> device_calls evs
              = map (\<lambda>ns. (TrimPrefix ns ''device:'', devices)) (filter is_device nss))"
  by (rule resolveNameservers_cases
      [where P = "\<lambda>nss res tr out. \<exists>evs. snd out = tr @ evs
         \<and> prefix (device_calls evs)
              (map (\<lambda>ns. (TrimPrefix ns ''device:'', devices)) (filter is_device nss))
         \<and> (\<forall>ips. fst out = Inr ips
               \<longrightarrow> device_calls evs
                   = map (\<lambda>ns. (TrimPrefix ns ''device:'', devices)) (filter is_device nss))"])
    (auto simp: is_device_def svc_not_device)

lemma rn_lookups_succeed:
  "\<exists>evs. snd (resolveNameservers env client devices domain nss res tr) = tr @ evs
     \<and> (\<forall>ips. fst (resolveNameservers env client devices domain nss res tr) = Inr ips
          \<longrightarrow> lookups_succeed env tr evs)"
  by (rule resolveNameservers_cases
      [where P = "\<lambda>nss res tr out. \<exists>evs. snd out = tr @ evs
         \<and> (\<forall>ips. fst out = Inr ips \<longrightarrow> lookups_succeed env tr evs)"])
    (auto simp: service_answer_Inr)

lemma rn_device_failure:
  "\<exists>evs. snd (resolveNameservers env client devices domain nss res tr) = tr @ evs
     \<and> (\<forall>name devs err. (name, devs) \<in> set (device_calls evs) \<longrightarrow> getDeviceIP name devs = Inl err
          \<longrightarrow> fst (resolveNameservers env client devices domain nss res tr)
              = Inl (Errorf ''resolving device %s: %w'' [Str name, Err err]))"
  by (rule resolveNameservers_cases
      [where P = "\<lambda>nss res tr out. \<exists>evs. snd out = tr @ evs
         \<and> (\<forall>name devs err. (name, devs) \<in> set (device_calls evs) \<longrightarrow> getDeviceIP name devs = Inl err
          \<longrightarrow> fst out = Inl (Errorf ''resolving device %s: %w'' [Str name, Err err]))"])
    auto

lemma rn_length:
  "fst (resolveNameservers env client devices domain nss res tr) = Inr ips
     \<Longrightarrow> length ips = length res + length nss"
  by (rule resolveNameservers_cases
      [where P = "\<lambda>nss res tr out. \<forall>ips. fst out = Inr ips \<longrightarrow> length ips = length res + length nss",
       rule_format])
    auto

lemma rn_literal:
  "\<forall>ns\<in>set nss. \<not> is_svc ns \<and> \<not> is_device ns
     \<Longrightarrow> resolveNameservers env client devices domain nss res tr = (Inr (res @ nss), tr)"
  by (induction nss arbitrary: res) (auto simp: is_svc_def is_device_def)

subsection \<open>The outer loop\<close>

lemma resolveDomains_cases [case_names empty abort continue]:
  assumes "\<And>splitDNS tr. P [] splitDNS tr (Inr splitDNS, tr)"
    and "\<And>domain nss cfg splitDNS tr err tr'.
           resolveNameservers env client devices domain nss [] tr = (Inl err, tr') \<Longrightarrow>
           P ((domain, nss) # cfg) splitDNS tr (Inl err, tr')"
    and "\<And>domain nss cfg splitDNS tr resolved tr' out.
           resolveNameservers env client devices domain nss [] tr = (Inr resolved, tr') \<Longrightarrow>
           P cfg (AList.update domain resolved splitDNS) tr' out \<Longrightarrow>
           P ((domain, nss) # cfg) splitDNS tr out"
  shows "P cfg splitDNS tr (resolveDomains env client devices cfg splitDNS tr)"
proof (induction cfg arbitrary: splitDNS tr)
  case Nil
  show ?case by (simp add: assms(1))
next
  case (Cons entry cfg)
  obtain domain nss where entry: "entry = (domain, nss)" by (cases entry)
  obtain r tr' where rn: "resolveNameservers env client devices domain nss [] tr = (r, tr')"
    by (cases "resolveNameservers env client devices domain nss [] tr")
  show ?case
  proof (cases r)
    case (Inl err)
    with rn entry assms(2) [of domain nss tr err tr'] show ?thesis by simp
  next
    case (Inr resolved)
    with rn entry assms(3) [of domain nss tr resolved tr', OF _ Cons.IH] show ?thesis by simp
  qed
qed

lemma rd_events:
  "\<exists>evs. snd (resolveDomains env client devices cfg splitDNS tr) = tr @ evs
         \<and> list_all pass_event evs"
proof (rule resolveDomains_cases
    [where P = "\<lambda>cfg splitDNS tr out. \<exists>evs. snd out = tr @ evs \<and> list_all pass_event evs"],
    goal_cases)
  case (1 splitDNS tr)
  show ?case by simp
next
  case (2 domain nss cfg splitDNS tr err tr')
  with rn_events [of env client devices domain nss "[]" tr] show ?case by auto
next
  case (3 domain nss cfg splitDNS tr resolved tr' out)
  with rn_events [of env client devices domain nss "[]" tr] show ?case by auto
qed

lemma rd_urls:
  "\<exists>evs. snd (resolveDomains env client devices cfg splitDNS tr) = tr @ evs
     \<and> prefix (lookup_urls evs) (map (service_url client) (filter is_svc (refs cfg)))
     \<and> (\<forall>t. fst (resolveDomains env client devices cfg splitDNS tr) = Inr t
          \<longrightarrow> lookup_urls evs = map (service_url client) (filter is_svc (refs cfg)))"
proof (rule resolveDomains_cases
    [where P = "\<lambda>cfg splitDNS tr out. \<exists>evs. snd out = tr @ evs
       \<and> prefix (lookup_urls evs) (map (service_url client) (filter is_svc (refs cfg)))
       \<and> (\<forall>t. fst out = Inr t
            \<longrightarrow> lookup_urls evs = map (service_url client) (filter is_svc (refs cfg)))"],
    goal_cases)
  case (1 splitDNS tr)
  show ?case by (simp add: refs_def)
next
  case (2 domain nss cfg splitDNS tr err tr')
  with rn_urls [of env client devices domain nss "[]" tr] show ?case
    by (auto simp: refs_def)
next
  case (3 domain nss cfg splitDNS tr resolved tr' out)
  with rn_urls [of env client devices domain nss "[]" tr] show ?case
    by (auto simp: refs_def)
qed

lemma rd_device_calls:
  "\<exists>evs. snd (resolveDomains env client devices cfg splitDNS tr) = tr @ evs
     \<and> prefix (device_calls evs)
          (map (\<lambda>ns. (TrimPrefix ns ''device:'', devices)) (filter is_device (refs cfg)))
     \<and> (\<forall>t. fst (resolveDomains env client devices cfg splitDNS tr) = Inr t
          \<longrightarrow> device_calls evs
              = map (\<lambda>ns. (TrimPrefix ns ''device:'', devices)) (filter is_device (refs cfg)))"
proof (rule resolveDomains_cases
    [where P = "\<lambda>cfg splitDNS tr out. \<exists>evs. snd out = tr @ evs
       \<and> prefix (device_calls evs)
            (map (\<lambda>ns. (TrimPrefix ns ''device:'', devices)) (filter is_device (refs cfg)))
       \<and> (\<forall>t. fst out = Inr t
            \<longrightarrow> device_calls evs
                = map (\<lambda>ns. (TrimPrefix ns ''device:'', devices)) (filter is_device (refs cfg)))"],
    goal_cases)
  case (1 splitDNS tr)
  show ?case by (simp add: refs_def)
next
  case (2 domain nss cfg splitDNS tr err tr')
  with rn_device_calls [of env client devices domain nss "[]" tr] show ?case
    by (auto simp: refs_def)
next
  case (3 domain nss cfg splitDNS tr resolved tr' out)
  with rn_device_calls [of env client devices domain nss "[]" tr] show ?case
    by (auto simp: refs_def)
qed

lemma rd_lookups_succeed:
  "\<exists>evs. snd (resolveDomains env client devices cfg splitDNS tr) = tr @ evs
     \<and> (\<forall>t. fst (resolveDomains env client devices cfg splitDNS tr) = Inr t
          \<longrightarrow> lookups_succeed env tr evs)"
proof (rule resolveDomains_cases
    [where P = "\<lambda>cfg splitDNS tr out. \<exists>evs. snd out = tr @ evs
       \<and> (\<forall>t. fst out = Inr t \<longrightarrow> lookups_succeed env tr evs)"],
    goal_cases)
  case (1 splitDNS tr)
  show ?case by simp
next
  case (2 domain nss cfg splitDNS tr err tr')
  with rn_lookups_succeed [of env client devices domain nss "[]" tr] show ?case by auto
next
  case (3 domain nss cfg splitDNS tr resolved tr' out)
  with rn_lookups_succeed [of env client devices domain nss "[]" tr] show ?case by auto
qed

lemma rd_device_failure:
  "\<exists>evs. snd (resolveDomains env client devices cfg splitDNS tr) = tr @ evs
     \<and> (\<forall>name devs err. (name, devs) \<in> set (device_calls evs) \<longrightarrow> getDeviceIP name devs = Inl err
          \<longrightarrow> fst (resolveDomains env client devices cfg splitDNS tr)
              = Inl (Errorf ''resolving device %s: %w'' [Str name, Err err]))"
proof (rule resolveDomains_cases
    [where P = "\<lambda>cfg splitDNS tr out. \<exists>evs. snd out = tr @ evs
       \<and> (\<forall>name devs err. (name, devs) \<in> set (device_calls evs) \<longrightarrow> getDeviceIP name devs = Inl err
            \<longrightarrow> fst out = Inl (Errorf ''resolving device %s: %w'' [Str name, Err err]))"],
    goal_cases)
  case (1 splitDNS tr)
  show ?case by simp
next
  case (2 domain nss cfg splitDNS tr err tr')
  with rn_device_failure [of env client devices domain nss "[]" tr] show ?case by auto
next
  case (3 domain nss cfg splitDNS tr resolved tr' out)
  with rn_device_failure [of env client devices domain nss "[]" tr] show ?case by auto
qed

subsection \<open>The pass\<close>

lemma emitted_append [simp]: "emitted tr (tr @ evs) = evs"
  by (simp add: emitted_def)

lemma needsDevices_inner_iff: "needsDevices_inner nss \<longleftrightarrow> (\<exists>ns\<in>set nss. is_device ns)"
  by (induction nss) (auto simp: is_device_def)

lemma needsDevices_iff: "needsDevices cfg \<longleftrightarrow> (\<exists>ns\<in>set (refs cfg). is_device ns)"
  by (induction cfg) (auto simp: refs_def needsDevices_inner_iff)

lemma set_refs: "set (refs cfg) = (\<Union>(domain, nss)\<in>set cfg. set nss)"
  by (auto simp: refs_def)

text \<open>
  The two pairs of loops may visit the map in different orders; the answer of the first
  pair does not depend on the order.
\<close>

lemma needsDevices_range_order: "set cfg = set cfg' \<Longrightarrow> needsDevices cfg = needsDevices cfg'"
  by (simp add: needsDevices_iff set_refs)

lemma update_fresh: "k \<notin> fst ` set al \<Longrightarrow> AList.update k v al = al @ [(k, v)]"
  by (induction al) auto

lemma rd_table:
  assumes "distinct (map fst splitDNS @ map fst cfg)"
    and "fst (resolveDomains env client devices cfg splitDNS tr) = Inr t"
  shows "\<exists>t'. t = splitDNS @ t' \<and> resolved_table cfg t'"
proof -
  have "distinct (map fst splitDNS @ map fst cfg) \<longrightarrow>
       (\<forall>t. fst (resolveDomains env client devices cfg splitDNS tr) = Inr t
          \<longrightarrow> (\<exists>t'. t = splitDNS @ t' \<and> resolved_table cfg t'))"
  proof (rule resolveDomains_cases
    [where P = "\<lambda>cfg splitDNS tr out. distinct (map fst splitDNS @ map fst cfg) \<longrightarrow>
       (\<forall>t. fst out = Inr t \<longrightarrow> (\<exists>t'. t = splitDNS @ t' \<and> resolved_table cfg t'))"],
     goal_cases)
    case (1 splitDNS tr)
    show ?case by (simp add: resolved_table_def)
  next
    case (2 domain nss cfg splitDNS tr err tr')
    show ?case by simp
  next
    case (3 domain nss cfg splitDNS tr resolved tr' out)
    show ?case
    proof (intro impI allI)
      fix t
      assume dist: "distinct (map fst splitDNS @ map fst ((domain, nss) # cfg))"
        and out: "fst out = Inr t"
      from dist have fresh: "domain \<notin> fst ` set splitDNS" and
        d: "distinct (map fst (splitDNS @ [(domain, resolved)]) @ map fst cfg)"
        by auto
      from 3(1) have len: "length resolved = length nss"
        using rn_length [of env client devices domain nss "[]" tr resolved] by simp
      from 3(2) d out obtain t' where
        "t = (splitDNS @ [(domain, resolved)]) @ t'" "resolved_table cfg t'"
        unfolding update_fresh [OF fresh] by blast
      with len show "\<exists>t'. t = splitDNS @ t' \<and> resolved_table ((domain, nss) # cfg) t'"
        by (auto simp: resolved_table_def)
    qed
  qed
  with assms show ?thesis by blast
qed

lemma rd_literal:
  "distinct (map fst splitDNS @ map fst cfg) \<Longrightarrow>
   \<forall>ns\<in>set (refs cfg). \<not> is_svc ns \<and> \<not> is_device ns \<Longrightarrow>
   resolveDomains env client devices cfg splitDNS tr = (Inr (splitDNS @ cfg), tr)"
proof (induction cfg arbitrary: splitDNS)
  case Nil
  show ?case by simp
next
  case (Cons entry cfg)
  obtain domain nss where entry: "entry = (domain, nss)" by (cases entry)
  from Cons.prems(2) entry have lit: "\<forall>ns\<in>set nss. \<not> is_svc ns \<and> \<not> is_device ns"
    and rest: "\<forall>ns\<in>set (refs cfg). \<not> is_svc ns \<and> \<not> is_device ns"
    by (auto simp: refs_def)
  from Cons.prems(1) entry have fresh: "domain \<notin> fst ` set splitDNS"
    and d: "distinct (map fst (splitDNS @ [(domain, nss)]) @ map fst cfg)"
    by auto
  show ?case
    using Cons.IH [OF d rest]
    by (simp add: entry rn_literal [OF lit] update_fresh [OF fresh])
qed

text \<open>The three ways through resolveSplitDNS.\<close>

lemma resolveSplitDNS_cases:
  obtains (nofetch) "\<not> (\<exists>ns\<in>set (refs cfg). is_device ns)"
      "resolveSplitDNS env client cfg tr
         = (fst (resolveDomains env client [] cfg [] tr),
            snd (resolveDomains env client [] cfg [] tr), client)"
  | (fetch_failed) err where "\<exists>ns\<in>set (refs cfg). is_device ns"
      "devices_List env tr (client_Devices env tr client) = Inl err"
      "resolveSplitDNS env client cfg tr
         = (Inl (Errorf ''listing devices: %w'' [Err err]), tr @ [Devices_List],
            client_Devices env tr client)"
  | (fetched) devs where "\<exists>ns\<in>set (refs cfg). is_device ns"
      "devices_List env tr (client_Devices env tr client) = Inr devs"
      "resolveSplitDNS env client cfg tr
         = (fst (resolveDomains env (client_Devices env tr client) devs cfg []
                   (tr @ [Devices_List])),
            snd (resolveDomains env (client_Devices env tr client) devs cfg []
                   (tr @ [Devices_List])),
            client_Devices env tr client)"
proof (cases "needsDevices cfg")
  case False
  then show ?thesis
    using nofetch by (simp add: resolveSplitDNS_def needsDevices_iff split: prod.split)
next
  case True
  then show ?thesis
    using fetch_failed fetched
    by (cases "devices_List env tr (client_Devices env tr client)")
      (simp_all add: resolveSplitDNS_def needsDevices_iff Let_def split: prod.split)
qed

text \<open>The client that a pass leaves, and that its lookups read.\<close>

lemma resolveSplitDNS_client:
  "snd (snd (resolveSplitDNS env client cfg tr))
     = (if \<exists>ns\<in>set (refs cfg). is_device ns then client_Devices env tr client else client)"
  by (cases rule: resolveSplitDNS_cases [of cfg env client tr]) simp_all

lemma pass_event_no_fetch:
  "list_all pass_event evs \<Longrightarrow> count_list evs Devices_List = 0"
  by (induction evs) (auto simp: pass_event_def)

lemma pass_event_submitted: "list_all pass_event evs \<Longrightarrow> submitted evs = []"
  by (induction evs rule: submitted.induct) (auto simp: pass_event_def)

lemma rs_device_failure:
  assumes "(name, devs) \<in> set (device_calls (emitted tr (fst (snd (resolveSplitDNS env client cfg tr)))))"
    and "getDeviceIP name devs = Inl err"
  shows "fst (resolveSplitDNS env client cfg tr)
           = Inl (Errorf ''resolving device %s: %w'' [Str name, Err err])"
proof (cases rule: resolveSplitDNS_cases [of cfg env client tr])
  case nofetch
  with assms rd_device_failure [of env client "[]" cfg "[]" tr] show ?thesis
    by auto
next
  case (fetch_failed e)
  with assms show ?thesis by simp
next
  case (fetched ds)
  with assms rd_device_failure [of env "client_Devices env tr client" ds cfg "[]" "tr @ [Devices_List]"] show ?thesis
    by auto
qed

lemma rs_fetch_count:
  "count_list (emitted tr (fst (snd (resolveSplitDNS env client cfg tr)))) Devices_List
     = (if \<exists>ns\<in>set (refs cfg). is_device ns then 1 else 0)"
proof (cases rule: resolveSplitDNS_cases [of cfg env client tr])
  case nofetch
  with rd_events [of env client "[]" cfg "[]" tr] show ?thesis
    by (auto simp: pass_event_no_fetch)
next
  case (fetch_failed e)
  then show ?thesis by simp
next
  case (fetched ds)
  with rd_events [of env "client_Devices env tr client" ds cfg "[]" "tr @ [Devices_List]"] show ?thesis
    by (auto simp: pass_event_no_fetch)
qed

lemma rs_urls:
  "prefix (lookup_urls (emitted tr (fst (snd (resolveSplitDNS env client cfg tr)))))
          (map (service_url (snd (snd (resolveSplitDNS env client cfg tr)))) (filter is_svc (refs cfg)))
   \<and> (\<forall>t. fst (resolveSplitDNS env client cfg tr) = Inr t
        \<longrightarrow> lookup_urls (emitted tr (fst (snd (resolveSplitDNS env client cfg tr))))
            = map (service_url (snd (snd (resolveSplitDNS env client cfg tr)))) (filter is_svc (refs cfg)))"
proof (cases rule: resolveSplitDNS_cases [of cfg env client tr])
  case nofetch
  with rd_urls [of env client "[]" cfg "[]" tr] show ?thesis
    by auto
next
  case (fetch_failed e)
  then show ?thesis by simp
next
  case (fetched ds)
  with rd_urls [of env "client_Devices env tr client" ds cfg "[]" "tr @ [Devices_List]"] show ?thesis
    by auto
qed

lemma rs_device_calls:
  obtains (none) "device_calls (emitted tr (fst (snd (resolveSplitDNS env client cfg tr)))) = []"
      "\<forall>t. fst (resolveSplitDNS env client cfg tr) = Inr t
         \<longrightarrow> filter is_device (refs cfg) = []"
  | (fetched) devs evs where "devices_List env tr (client_Devices env tr client) = Inr devs"
      "emitted tr (fst (snd (resolveSplitDNS env client cfg tr))) = Devices_List # evs"
      "prefix (device_calls (emitted tr (fst (snd (resolveSplitDNS env client cfg tr)))))
         (map (\<lambda>ns. (TrimPrefix ns ''device:'', devs)) (filter is_device (refs cfg)))"
      "\<forall>t. fst (resolveSplitDNS env client cfg tr) = Inr t
         \<longrightarrow> device_calls (emitted tr (fst (snd (resolveSplitDNS env client cfg tr))))
             = map (\<lambda>ns. (TrimPrefix ns ''device:'', devs)) (filter is_device (refs cfg))"
proof (cases rule: resolveSplitDNS_cases [of cfg env client tr])
  case nofetch
  from nofetch(1) have nodev: "filter is_device (refs cfg) = []"
    by (auto simp: filter_empty_conv)
  with nofetch(2) rd_device_calls [of env client "[]" cfg "[]" tr] show ?thesis
    by (intro none) auto
next
  case (fetch_failed e)
  then show ?thesis by (intro none) simp_all
next
  case (fetched ds)
  obtain evs where evs: "snd (resolveDomains env (client_Devices env tr client) ds cfg [] (tr @ [Devices_List]))
      = (tr @ [Devices_List]) @ evs"
    and p: "prefix (device_calls evs)
          (map (\<lambda>ns. (TrimPrefix ns ''device:'', ds)) (filter is_device (refs cfg)))"
    and e: "\<forall>t. fst (resolveDomains env (client_Devices env tr client) ds cfg [] (tr @ [Devices_List])) = Inr t
          \<longrightarrow> device_calls evs
              = map (\<lambda>ns. (TrimPrefix ns ''device:'', ds)) (filter is_device (refs cfg))"
    using rd_device_calls [of env "client_Devices env tr client" ds cfg "[]" "tr @ [Devices_List]"] by blast
  show ?thesis
  proof (rule that(2) [of ds evs])
    show "devices_List env tr (client_Devices env tr client) = Inr ds" by fact
    show "emitted tr (fst (snd (resolveSplitDNS env client cfg tr))) = Devices_List # evs"
      using fetched(3) evs by simp
    show "prefix (device_calls (emitted tr (fst (snd (resolveSplitDNS env client cfg tr)))))
         (map (\<lambda>ns. (TrimPrefix ns ''device:'', ds)) (filter is_device (refs cfg)))"
      using fetched(3) evs p by simp
    show "\<forall>t. fst (resolveSplitDNS env client cfg tr) = Inr t
         \<longrightarrow> device_calls (emitted tr (fst (snd (resolveSplitDNS env client cfg tr))))
             = map (\<lambda>ns. (TrimPrefix ns ''device:'', ds)) (filter is_device (refs cfg))"
      using fetched(3) evs e by simp
  qed
qed

lemma HasPrefix_TrimPrefix: "HasPrefix s p \<Longrightarrow> p @ TrimPrefix s p = s"
  using append_take_drop_id [of "length p" s] by (simp add: TrimPrefix_def HasPrefix_def)

lemma rs_events:
  "\<exists>evs. fst (snd (resolveSplitDNS env client cfg tr)) = tr @ evs \<and> submitted evs = []"
proof (cases rule: resolveSplitDNS_cases [of cfg env client tr])
  case nofetch
  with rd_events [of env client "[]" cfg "[]" tr] show ?thesis
    by (auto simp: pass_event_submitted)
next
  case (fetch_failed e)
  then show ?thesis by simp
next
  case (fetched ds)
  with rd_events [of env "client_Devices env tr client" ds cfg "[]" "tr @ [Devices_List]"] show ?thesis
    by (auto simp: pass_event_submitted)
qed

lemma rs_lookups_succeed:
  "fst (resolveSplitDNS env client cfg tr) = Inr t \<Longrightarrow>
   lookups_succeed env tr (emitted tr (fst (snd (resolveSplitDNS env client cfg tr))))"
proof (cases rule: resolveSplitDNS_cases [of cfg env client tr])
  case nofetch
  assume "fst (resolveSplitDNS env client cfg tr) = Inr t"
  with nofetch rd_lookups_succeed [of env client "[]" cfg "[]" tr] show ?thesis
    by auto
next
  case (fetch_failed e)
  assume "fst (resolveSplitDNS env client cfg tr) = Inr t"
  with fetch_failed show ?thesis by simp
next
  case (fetched ds)
  assume "fst (resolveSplitDNS env client cfg tr) = Inr t"
  with fetched rd_lookups_succeed [of env "client_Devices env tr client" ds cfg "[]" "tr @ [Devices_List]"] show ?thesis
    by auto
qed

lemma rs_table:
  assumes "fst (resolveSplitDNS env client cfg tr) = Inr t" and "distinct (map fst cfg)"
  shows "resolved_table cfg t"
proof (cases rule: resolveSplitDNS_cases [of cfg env client tr])
  case nofetch
  with assms rd_table [of "[]" cfg env client "[]" tr t] show ?thesis by simp
next
  case (fetch_failed e)
  with assms show ?thesis by simp
next
  case (fetched ds)
  with assms rd_table [of "[]" cfg env "client_Devices env tr client" ds "tr @ [Devices_List]" t] show ?thesis by simp
qed

lemma rs_fetch_succeeded:
  assumes "fst (resolveSplitDNS env client cfg tr) = Inr t" and "\<exists>ns\<in>set (refs cfg). is_device ns"
  shows "\<exists>devs. devices_List env tr (client_Devices env tr client) = Inr devs"
  using assms by (cases rule: resolveSplitDNS_cases [of cfg env client tr]) auto

subsection \<open>The update\<close>

lemma updateDNS_failed:
  "fst (resolveSplitDNS env client cfg tr) = Inl err \<Longrightarrow>
   updateDNS env client cfg tr
     = (Some (Errorf ''resolving services: %w'' [Err err]), snd (resolveSplitDNS env client cfg tr))"
  by (cases "resolveSplitDNS env client cfg tr") (auto simp: updateDNS_def)

lemma submitted_summary [simp]:
  "submitted (map (\<lambda>(domain, nameservers). Printf f (args domain nameservers)) t) = []"
  by (induction t) auto

lemma updateDNS_submitted:
  "submitted (emitted tr (fst (snd (updateDNS env client cfg tr))))
     = (case fst (resolveSplitDNS env client cfg tr) of Inl err \<Rightarrow> [] | Inr t \<Rightarrow> [t])"
proof -
  obtain r tr1 client1 where run: "resolveSplitDNS env client cfg tr = (r, tr1, client1)"
    by (cases "resolveSplitDNS env client cfg tr") auto
  with rs_events [of env client cfg tr] obtain evs where
    evs: "tr1 = tr @ evs" "submitted evs = []"
    by auto
  show ?thesis
  proof (cases r)
    case (Inl err)
    with run evs show ?thesis by (simp add: updateDNS_def)
  next
    case (Inr t)
    with run evs show ?thesis
      by (simp add: updateDNS_def Let_def split: option.split)
  qed
qed

subsection \<open>The ticker loop\<close>

lemma ticker_loop_Suc:
  "ticker_loop env cfg (Suc n) st = runUpdate env cfg (ticker_loop env cfg n st)"
  by (induction n arbitrary: st) simp_all

subsection \<open>Running the examples\<close>

lemmas run_example =
  resolveSplitDNS_def getServiceIP_def NewRequestWithContext_def SetBasicAuth_def StatusOK_def
  HasPrefix_def TrimPrefix_def Let_def emitted_def refs_def is_svc_def is_device_def
  example_env_def example_client_def

lemmas run_update = run_example updateDNS_def resolved_table_def



subsection \<open>The addresses of a successful pass\<close>

lemma getDeviceIP_matching:
  "getDeviceIP name devs = Inr ip \<Longrightarrow> matching_address name devs = Some ip"
  by (induction devs) (auto simp: matching_address_def split: if_splits list.splits)

lemma rn_resolved:
  assumes "fst (resolveNameservers env client devices domain nss res tr) = Inr ips"
  shows "\<exists>new. ips = res @ new \<and> list_all2 (resolved_ref devices) nss new"
proof -
  have "\<forall>ips. fst (resolveNameservers env client devices domain nss res tr) = Inr ips
          \<longrightarrow> (\<exists>new. ips = res @ new \<and> list_all2 (resolved_ref devices) nss new)"
  proof (rule resolveNameservers_cases
      [where P = "\<lambda>nss res tr out. \<forall>ips. fst out = Inr ips
          \<longrightarrow> (\<exists>new. ips = res @ new \<and> list_all2 (resolved_ref devices) nss new)"],
      goal_cases)
    case (1 res tr)
    show ?case by simp
  next
    case (2 ns nss res tr err)
    show ?case by simp
  next
    case (3 ns nss res tr req c err)
    show ?case by simp
  next
    case (4 ns nss res tr req c ip out)
    then show ?case by (auto simp: resolved_ref_def)
  next
    case (5 ns nss res tr err)
    show ?case by simp
  next
    case (6 ns nss res tr ip out)
    then show ?case by (auto simp: resolved_ref_def getDeviceIP_matching)
  next
    case (7 ns nss res tr out)
    then show ?case by (auto simp: resolved_ref_def)
  qed
  with assms show ?thesis by blast
qed

lemma rd_resolved:
  assumes "distinct (map fst splitDNS @ map fst cfg)"
    and "fst (resolveDomains env client devices cfg splitDNS tr) = Inr t"
  shows "\<exists>t'. t = splitDNS @ t' \<and> resolved_refs devices cfg t'"
proof -
  have "distinct (map fst splitDNS @ map fst cfg) \<longrightarrow>
       (\<forall>t. fst (resolveDomains env client devices cfg splitDNS tr) = Inr t
          \<longrightarrow> (\<exists>t'. t = splitDNS @ t' \<and> resolved_refs devices cfg t'))"
  proof (rule resolveDomains_cases
    [where P = "\<lambda>cfg splitDNS tr out. distinct (map fst splitDNS @ map fst cfg) \<longrightarrow>
       (\<forall>t. fst out = Inr t \<longrightarrow> (\<exists>t'. t = splitDNS @ t' \<and> resolved_refs devices cfg t'))"],
     goal_cases)
    case (1 splitDNS tr)
    show ?case by (simp add: resolved_refs_def)
  next
    case (2 domain nss cfg splitDNS tr err tr')
    show ?case by simp
  next
    case (3 domain nss cfg splitDNS tr resolved tr' out)
    show ?case
    proof (intro impI allI)
      fix t
      assume dist: "distinct (map fst splitDNS @ map fst ((domain, nss) # cfg))"
        and out: "fst out = Inr t"
      from dist have fresh: "domain \<notin> fst ` set splitDNS" and
        d: "distinct (map fst (splitDNS @ [(domain, resolved)]) @ map fst cfg)"
        by auto
      from 3(1) have res: "list_all2 (resolved_ref devices) nss resolved"
        using rn_resolved [of env client devices domain nss "[]" tr resolved] by simp
      from 3(2) d out obtain t' where
        "t = (splitDNS @ [(domain, resolved)]) @ t'" "resolved_refs devices cfg t'"
        unfolding update_fresh [OF fresh] by blast
      with res show "\<exists>t'. t = splitDNS @ t' \<and> resolved_refs devices ((domain, nss) # cfg) t'"
        by (auto simp: resolved_refs_def)
    qed
  qed
  with assms show ?thesis by blast
qed

lemma rs_resolved:
  assumes "fst (resolveSplitDNS env client cfg tr) = Inr t" and "distinct (map fst cfg)"
    and "if \<exists>ns\<in>set (refs cfg). is_device ns
         then devices_List env tr (client_Devices env tr client) = Inr devs else devs = []"
  shows "resolved_refs devs cfg t"
proof (cases rule: resolveSplitDNS_cases [of cfg env client tr])
  case nofetch
  with assms rd_resolved [of "[]" cfg env client "[]" tr t] show ?thesis by simp
next
  case (fetch_failed e)
  with assms show ?thesis by simp
next
  case (fetched ds)
  with assms rd_resolved [of "[]" cfg env "client_Devices env tr client" ds
      "tr @ [Devices_List]" t]
  show ?thesis by simp
qed


subsection \<open>The test cases of the repository\<close>

text \<open>The model gives the results that the tests of the repository expect.\<close>

lemma TestGetDeviceIP:
  "getDeviceIP ''test-device''
     [\<lparr>dev_Name = [], Hostname = ''test-device'', Addresses = [''100.64.0.1'', ''fd7a::1'']\<rparr>]
   = Inr ''100.64.0.1''"
  "getDeviceIP ''test-device''
     [\<lparr>dev_Name = ''test-device.example.ts.net'', Hostname = ''other-name'',
        Addresses = [''100.64.0.2'', ''fd7a::2'']\<rparr>]
   = Inr ''100.64.0.2''"
  "getDeviceIP ''test-device.example.ts.net''
     [\<lparr>dev_Name = ''test-device.example.ts.net'', Hostname = ''test'',
        Addresses = [''100.64.0.3'', ''fd7a::3'']\<rparr>]
   = Inr ''100.64.0.3''"
  "getDeviceIP ''nonexistent''
     [\<lparr>dev_Name = [], Hostname = ''other-device'', Addresses = [''100.64.0.4'']\<rparr>]
   = Inl (Errorf ''device %s not found'' [Str ''nonexistent''])"
  "getDeviceIP ''test-device'' [\<lparr>dev_Name = [], Hostname = ''test-device'', Addresses = []\<rparr>]
   = Inl (Errorf ''device %s has no addresses'' [Str ''test-device''])"
  by (simp_all add: HasPrefix_def)

lemma TestGetServiceIP:
  "fst (getServiceIP example_env example_client ''svc:test-service'' []) = Inr ''100.64.0.1''"
  "fst (getServiceIP example_env example_client ''svc:nonexistent'' [])
     = Inl (Errorf ''API returned status %d'' [Num 404])"
  "fst (getServiceIP example_env_empty example_client ''svc:test-service'' [])
     = Inl (Errorf ''service %s has no addresses'' [Str ''svc:test-service''])"
  by (simp_all add: run_example example_env_empty_def)

lemma TestResolveSplitDNS:
  "fst (resolveSplitDNS example_env example_client
          [(''direct.example.com'', [''192.168.1.1'']),
           (''multi.example.com'', [''192.168.1.1'', ''192.168.1.2''])] [])
     = Inr [(''direct.example.com'', [''192.168.1.1'']),
            (''multi.example.com'', [''192.168.1.1'', ''192.168.1.2''])]"
  "fst (resolveSplitDNS example_env example_client [] []) = Inr []"
  "fst (resolveSplitDNS example_env example_client
          [(''service.example.com'', [''svc:test-service''])] [])
     = Inr [(''service.example.com'', [''100.64.0.1''])]"
  "fst (resolveSplitDNS example_env example_client
          [(''device.example.com'', [''device:test-device''])] [])
     = Inr [(''device.example.com'', [''100.64.0.2''])]"
  by (simp_all add: run_example)

text \<open>The example of the specification: a literal address and a device reference, order kept.\<close>

lemma specification_example:
  "fst (resolveSplitDNS
          (example_env\<lparr>devices_List := \<lambda>h c.
             Inr [\<lparr>dev_Name = [], Hostname = ''my-router'', Addresses = [''100.64.0.5'']\<rparr>]\<rparr>)
          example_client [(''internal.example.com'', [''192.168.1.1'', ''device:my-router''])] [])
     = Inr [(''internal.example.com'', [''192.168.1.1'', ''100.64.0.5''])]"
  by (simp add: run_example)

section \<open>The statements of the specification\<close>

subsection \<open>Device resolution\<close>

text \<open>
  \<^bold>\<open>C1\<close> (as amended). The device list is walked once, in list order, and the first device
  that passes any of the three tests wins: hostname equal to the name, display name equal
  to the name, or display name starting with the name and a dot. The result is the first
  address of that device; when no device passes, or the chosen device has no address, the
  resolution fails. Whenever a device resolution performed in a pass fails, the pass returns
  that error, wrapped.

  The tests have no precedence across devices. In \<open>example_devices\<close> the first device passes
  only the prefix test and the second has the hostname itself: the program answers with
  the first device, a search by precedence with the second.
\<close>

theorem getDeviceIP_first_match:
  "getDeviceIP hostname devices =
     (case find (\<lambda>d. Hostname d = hostname \<or> dev_Name d = hostname
                      \<or> HasPrefix (dev_Name d) (hostname @ ''.'')) devices of
        None \<Rightarrow> Inl (Errorf ''device %s not found'' [Str hostname])
      | Some d \<Rightarrow>
          (case Addresses d of
             [] \<Rightarrow> Inl (Errorf ''device %s has no addresses'' [Str hostname])
           | a # x \<Rightarrow> Inr a))
   \<and> ((name, devs) \<in> set (device_calls (emitted tr (fst (snd (resolveSplitDNS env client cfg tr)))))
        \<longrightarrow> getDeviceIP name devs = Inl err
        \<longrightarrow> fst (resolveSplitDNS env client cfg tr)
              = Inl (Errorf ''resolving device %s: %w'' [Str name, Err err]))"
proof (intro conjI impI)
  show "getDeviceIP hostname devices =
     (case find (\<lambda>d. Hostname d = hostname \<or> dev_Name d = hostname
                      \<or> HasPrefix (dev_Name d) (hostname @ ''.'')) devices of
        None \<Rightarrow> Inl (Errorf ''device %s not found'' [Str hostname])
      | Some d \<Rightarrow>
          (case Addresses d of
             [] \<Rightarrow> Inl (Errorf ''device %s has no addresses'' [Str hostname])
           | a # x \<Rightarrow> Inr a))"
    by (induction devices) simp_all
next
  assume "(name, devs) \<in> set (device_calls (emitted tr (fst (snd (resolveSplitDNS env client cfg tr)))))"
    and "getDeviceIP name devs = Inl err"
  then show "fst (resolveSplitDNS env client cfg tr)
              = Inl (Errorf ''resolving device %s: %w'' [Str name, Err err])"
    by (rule rs_device_failure)
qed

theorem getDeviceIP_first_match_witness:
  "getDeviceIP ''my-router'' example_devices = Inr ''100.64.0.9''
   \<and> (''nothere'', [\<lparr>dev_Name = [], Hostname = ''test-device'', Addresses = [''100.64.0.2'']\<rparr>])
        \<in> set (device_calls (emitted [] (fst (snd (resolveSplitDNS example_env example_client
              [(''x.example.com'', [''device:nothere''])] [])))))
   \<and> getDeviceIP ''nothere''
        [\<lparr>dev_Name = [], Hostname = ''test-device'', Addresses = [''100.64.0.2'']\<rparr>]
        = Inl (Errorf ''device %s not found'' [Str ''nothere''])
   \<and> fst (resolveSplitDNS example_env example_client [(''x.example.com'', [''device:nothere''])] [])
        = Inl (Errorf ''resolving device %s: %w''
                 [Str ''nothere'', Err (Errorf ''device %s not found'' [Str ''nothere''])])"
  using getDeviceIP_first_match [of "''my-router''" example_devices "''nothere''"
      "[\<lparr>dev_Name = [], Hostname = ''test-device'', Addresses = [''100.64.0.2'']\<rparr>]"
      "[]" example_env example_client "[(''x.example.com'', [''device:nothere''])]"
      "Errorf ''device %s not found'' [Str ''nothere'']"]
  by (simp add: example_devices_def example_env_def example_client_def resolveSplitDNS_def
      HasPrefix_def TrimPrefix_def emitted_def Let_def)

theorem getDeviceIP_precedence_counterexample:
  "getDeviceIP ''my-router'' example_devices = Inr ''100.64.0.9''
   \<and> spec_getDeviceIP ''my-router'' example_devices = Inr ''100.64.0.5''
   \<and> getDeviceIP ''my-router'' example_devices \<noteq> spec_getDeviceIP ''my-router'' example_devices"
  by (simp add: example_devices_def spec_getDeviceIP_def first_address_def HasPrefix_def)

subsection \<open>No update after a failed pass\<close>

text \<open>
  \<^bold>\<open>C2\<close>. When the resolution pass fails, the update returns the error, wrapped, and submits
  nothing. A table is submitted only after a pass that succeeded, and it is the table of
  that pass. In such a pass every reference was resolved: a lookup was sent for every
  service reference and each of them succeeded, the device matching ran for every device
  reference and each run succeeded, the device list had been fetched if it was needed, and
  the table has one entry per domain with one address per reference.
\<close>

theorem no_update_after_failed_resolution:
  "(\<forall>err. fst (resolveSplitDNS env client cfg tr) = Inl err \<longrightarrow>
       updateDNS env client cfg tr
         = (Some (Errorf ''resolving services: %w'' [Err err]),
            snd (resolveSplitDNS env client cfg tr)))
   \<and> submitted (emitted tr (fst (snd (updateDNS env client cfg tr))))
       = (case fst (resolveSplitDNS env client cfg tr) of Inl err \<Rightarrow> [] | Inr t \<Rightarrow> [t])
   \<and> (\<forall>t. fst (resolveSplitDNS env client cfg tr) = Inr t \<longrightarrow>
         lookup_urls (emitted tr (fst (snd (resolveSplitDNS env client cfg tr))))
           = map (service_url (snd (snd (resolveSplitDNS env client cfg tr))))
               (filter is_svc (refs cfg))
         \<and> lookups_succeed env tr (emitted tr (fst (snd (resolveSplitDNS env client cfg tr))))
         \<and> map fst (device_calls (emitted tr (fst (snd (resolveSplitDNS env client cfg tr)))))
           = map (\<lambda>ns. TrimPrefix ns ''device:'') (filter is_device (refs cfg))
         \<and> (\<forall>(name, devs)\<in>set (device_calls (emitted tr (fst (snd (resolveSplitDNS env client cfg tr))))).
               \<exists>ip. getDeviceIP name devs = Inr ip)
         \<and> ((\<exists>ns\<in>set (refs cfg). is_device ns)
               \<longrightarrow> (\<exists>devs. devices_List env tr (client_Devices env tr client) = Inr devs))
         \<and> (distinct (map fst cfg) \<longrightarrow> resolved_table cfg t))"
proof (intro conjI allI impI)
  fix err assume "fst (resolveSplitDNS env client cfg tr) = Inl err"
  then show "updateDNS env client cfg tr
         = (Some (Errorf ''resolving services: %w'' [Err err]),
            snd (resolveSplitDNS env client cfg tr))"
    by (rule updateDNS_failed)
next
  show "submitted (emitted tr (fst (snd (updateDNS env client cfg tr))))
       = (case fst (resolveSplitDNS env client cfg tr) of Inl err \<Rightarrow> [] | Inr t \<Rightarrow> [t])"
    by (rule updateDNS_submitted)
next
  fix t assume ok: "fst (resolveSplitDNS env client cfg tr) = Inr t"
  let ?new = "emitted tr (fst (snd (resolveSplitDNS env client cfg tr)))"
  from ok show "lookup_urls ?new
      = map (service_url (snd (snd (resolveSplitDNS env client cfg tr)))) (filter is_svc (refs cfg))"
    using rs_urls [of tr env client cfg] by blast
  from ok show "lookups_succeed env tr ?new"
    by (rule rs_lookups_succeed)
  show "map fst (device_calls ?new)
      = map (\<lambda>ns. TrimPrefix ns ''device:'') (filter is_device (refs cfg))"
  proof (cases rule: rs_device_calls [of tr env client cfg])
    case none
    with ok show ?thesis by simp
  next
    case (fetched devs evs)
    with ok have "device_calls ?new
        = map (\<lambda>ns. (TrimPrefix ns ''device:'', devs)) (filter is_device (refs cfg))"
      by blast
    then show ?thesis by (simp add: comp_def)
  qed
  show "\<forall>(name, devs)\<in>set (device_calls ?new). \<exists>ip. getDeviceIP name devs = Inr ip"
  proof (clarify)
    fix name devs
    assume call: "(name, devs) \<in> set (device_calls ?new)"
    show "\<exists>ip. getDeviceIP name devs = Inr ip"
    proof (cases "getDeviceIP name devs")
      case (Inl e)
      from rs_device_failure [OF call Inl] ok show ?thesis by simp
    next
      case (Inr ip)
      then show ?thesis by blast
    qed
  qed
  {
    assume "\<exists>ns\<in>set (refs cfg). is_device ns"
    with ok show "\<exists>devs. devices_List env tr (client_Devices env tr client) = Inr devs"
      by (rule rs_fetch_succeeded)
  }
  {
    assume "distinct (map fst cfg)"
    with ok show "resolved_table cfg t"
      by (rule rs_table)
  }
qed

theorem no_update_after_failed_resolution_witness:
  "updateDNS example_env example_client
      [(''a.example.com'', [''192.168.1.1'']), (''b.example.com'', [''svc:other''])] []
     = (Some (Errorf ''resolving services: %w''
                [Err (Errorf ''resolving service %s: %w''
                        [Str ''svc:other'', Err (Errorf ''API returned status %d'' [Num 404])])]),
        snd (resolveSplitDNS example_env example_client
               [(''a.example.com'', [''192.168.1.1'']), (''b.example.com'', [''svc:other''])] []))
   \<and> submitted (emitted [] (fst (snd (updateDNS example_env example_client
        [(''a.example.com'', [''192.168.1.1'']), (''b.example.com'', [''svc:other''])] [])))) = []
   \<and> fst (updateDNS example_env_bad_url example_client [(''a.example.com'', [''svc:%zz''])] [])
       = Some (Errorf ''resolving services: %w''
                 [Err (Errorf ''resolving service %s: %w''
                         [Str ''svc:%zz'', Err (External ''invalid URL escape'')])])
   \<and> submitted (emitted [] (fst (snd (updateDNS example_env_bad_url example_client
        [(''a.example.com'', [''svc:%zz''])] [])))) = []
   \<and> submitted (emitted [] (fst (snd (updateDNS example_env example_client
        [(''a.example.com'', [''192.168.1.1'', ''device:test-device'']),
         (''b.example.com'', [''svc:test-service''])] []))))
       = [[(''a.example.com'', [''192.168.1.1'', ''100.64.0.2'']),
           (''b.example.com'', [''100.64.0.1''])]]
   \<and> lookup_urls (emitted [] (fst (snd (resolveSplitDNS example_env example_client
        [(''a.example.com'', [''192.168.1.1'', ''device:test-device'']),
         (''b.example.com'', [''svc:test-service''])] []))))
       = [''https://api.tailscale.com/api/v2/tailnet/test/services/svc:test-service/'']
   \<and> map fst (device_calls (emitted [] (fst (snd (resolveSplitDNS example_env example_client
        [(''a.example.com'', [''192.168.1.1'', ''device:test-device'']),
         (''b.example.com'', [''svc:test-service''])] [])))))
       = [''test-device'']
   \<and> resolved_table
        [(''a.example.com'', [''192.168.1.1'', ''device:test-device'']),
         (''b.example.com'', [''svc:test-service''])]
        [(''a.example.com'', [''192.168.1.1'', ''100.64.0.2'']),
         (''b.example.com'', [''100.64.0.1''])]"
  using no_update_after_failed_resolution [of example_env example_client
      "[(''a.example.com'', [''192.168.1.1'']), (''b.example.com'', [''svc:other''])]" "[]"]
    no_update_after_failed_resolution [of example_env_bad_url example_client
      "[(''a.example.com'', [''svc:%zz''])]" "[]"]
    no_update_after_failed_resolution [of example_env example_client
      "[(''a.example.com'', [''192.168.1.1'', ''device:test-device'']),
         (''b.example.com'', [''svc:test-service''])]" "[]"]
  by (simp add: run_update example_env_bad_url_def service_url_def)

subsection \<open>The device list is fetched at most once\<close>

text \<open>
  \<^bold>\<open>C3\<close>. In one pass the device list is fetched once when some reference of the
  configuration has the prefix \<^verbatim>\<open>device:\<close>, however many there are, and not at all
  otherwise; when that fetch fails the pass ends there with the error (and with the client
  as the accessor left it).
\<close>

theorem device_list_fetched_once:
  "count_list (emitted tr (fst (snd (resolveSplitDNS env client cfg tr)))) Devices_List
     = (if \<exists>ns\<in>set (refs cfg). HasPrefix ns ''device:'' then 1 else 0)
   \<and> ((\<exists>ns\<in>set (refs cfg). HasPrefix ns ''device:'') \<longrightarrow>
        devices_List env tr (client_Devices env tr client) = Inl err \<longrightarrow>
        resolveSplitDNS env client cfg tr
          = (Inl (Errorf ''listing devices: %w'' [Err err]), tr @ [Devices_List],
             client_Devices env tr client))"
proof (intro conjI impI)
  show "count_list (emitted tr (fst (snd (resolveSplitDNS env client cfg tr)))) Devices_List
     = (if \<exists>ns\<in>set (refs cfg). HasPrefix ns ''device:'' then 1 else 0)"
    using rs_fetch_count [of tr env client cfg] by (simp add: is_device_def)
next
  assume "\<exists>ns\<in>set (refs cfg). HasPrefix ns ''device:''"
    and "devices_List env tr (client_Devices env tr client) = Inl err"
  then show "resolveSplitDNS env client cfg tr
          = (Inl (Errorf ''listing devices: %w'' [Err err]), tr @ [Devices_List],
             client_Devices env tr client)"
    by (simp add: resolveSplitDNS_def needsDevices_iff is_device_def Let_def)
qed

theorem device_list_fetched_once_witness:
  "count_list (emitted [] (fst (snd (resolveSplitDNS example_env example_client
       [(''a.example.com'', [''device:test-device'', ''device:test-device'']),
        (''b.example.com'', [''device:test-device''])] [])))) Devices_List = 1
   \<and> count_list (emitted [] (fst (snd (resolveSplitDNS example_env example_client
       [(''a.example.com'', [''svc:test-service'', ''192.168.1.1''])] [])))) Devices_List = 0
   \<and> resolveSplitDNS (example_env\<lparr>devices_List := \<lambda>h c. Inl (External ''timeout'')\<rparr>)
         example_client [(''b.example.com'', [''device:test-device''])] []
       = (Inl (Errorf ''listing devices: %w'' [Err (External ''timeout'')]), [Devices_List],
          example_client)"
  using device_list_fetched_once [of "[]" example_env example_client
      "[(''a.example.com'', [''device:test-device'', ''device:test-device'']),
        (''b.example.com'', [''device:test-device''])]"]
    device_list_fetched_once [of "[]" example_env example_client
      "[(''a.example.com'', [''svc:test-service'', ''192.168.1.1''])]"]
    device_list_fetched_once [of "[]" "example_env\<lparr>devices_List := \<lambda>h c. Inl (External ''timeout'')\<rparr>"
      example_client "[(''b.example.com'', [''device:test-device''])]" "External ''timeout''"]
  by (simp add: refs_def HasPrefix_def example_env_def example_client_def)

subsection \<open>Service lookups\<close>

text \<open>
  \<^bold>\<open>C4\<close>. When the request of a service lookup has been answered: a status other than 200
  is an error; status 200 with an empty address list is an error; status 200 with a
  non-empty address list gives its first entry. A pass that succeeds has seen only
  successful lookups, and its table has an entry for every domain with one address per
  reference: a failed lookup never leaves an empty or missing entry, it aborts the pass.
\<close>

theorem service_lookup_result:
  "(\<forall>c req resp.
      snd (getServiceIP env client name tr) = tr @ [Http_Do c req] \<longrightarrow>
      http_Do env tr c req = Inr resp \<longrightarrow>
        (StatusCode resp \<noteq> StatusOK \<longrightarrow>
           fst (getServiceIP env client name tr)
             = Inl (Errorf ''API returned status %d'' [Num (StatusCode resp)]))
        \<and> (\<forall>svcInfo. StatusCode resp = StatusOK \<longrightarrow> json_Decode env (Body resp) = Inr svcInfo \<longrightarrow>
             (Addrs svcInfo = [] \<longrightarrow>
                fst (getServiceIP env client name tr)
                  = Inl (Errorf ''service %s has no addresses'' [Str name]))
             \<and> (\<forall>a rest. Addrs svcInfo = a # rest \<longrightarrow>
                   fst (getServiceIP env client name tr) = Inr a)))
   \<and> (\<forall>t. fst (resolveSplitDNS env client cfg tr) = Inr t \<longrightarrow>
         lookups_succeed env tr (emitted tr (fst (snd (resolveSplitDNS env client cfg tr))))
         \<and> (distinct (map fst cfg) \<longrightarrow> resolved_table cfg t))"
proof (intro conjI allI impI)
  fix c req resp
  assume sent: "snd (getServiceIP env client name tr) = tr @ [Http_Do c req]"
    and resp: "http_Do env tr c req = Inr resp"
  note ans = getServiceIP_sent [OF sent, unfolded resp]
  {
    assume "StatusCode resp \<noteq> StatusOK"
    then show "fst (getServiceIP env client name tr)
             = Inl (Errorf ''API returned status %d'' [Num (StatusCode resp)])"
      by (simp add: ans service_answer_def)
  }
  fix svcInfo
  assume ok: "StatusCode resp = StatusOK" and dec: "json_Decode env (Body resp) = Inr svcInfo"
  {
    assume "Addrs svcInfo = []"
    with ok dec show "fst (getServiceIP env client name tr)
                  = Inl (Errorf ''service %s has no addresses'' [Str name])"
      by (simp add: ans service_answer_def)
  }
  fix a rest
  assume "Addrs svcInfo = a # rest"
  with ok dec show "fst (getServiceIP env client name tr) = Inr a"
    by (simp add: ans service_answer_def)
next
  fix t assume ok: "fst (resolveSplitDNS env client cfg tr) = Inr t"
  then show "lookups_succeed env tr (emitted tr (fst (snd (resolveSplitDNS env client cfg tr))))"
    by (rule rs_lookups_succeed)
  assume "distinct (map fst cfg)"
  with ok show "resolved_table cfg t"
    by (rule rs_table)
qed

theorem service_lookup_result_witness:
  "fst (getServiceIP example_env example_client ''svc:test-service'' []) = Inr ''100.64.0.1''
   \<and> fst (getServiceIP example_env example_client ''svc:nonexistent'' [])
       = Inl (Errorf ''API returned status %d'' [Num 404])
   \<and> fst (getServiceIP example_env_empty example_client ''svc:test-service'' [])
       = Inl (Errorf ''service %s has no addresses'' [Str ''svc:test-service''])
   \<and> fst (resolveSplitDNS example_env example_client
            [(''example.com'', [''svc:test-service''])] [])
       = Inr [(''example.com'', [''100.64.0.1''])]
   \<and> lookups_succeed example_env [] (emitted [] (fst (snd (resolveSplitDNS example_env example_client
            [(''example.com'', [''svc:test-service''])] []))))
   \<and> resolved_table [(''example.com'', [''svc:test-service''])] [(''example.com'', [''100.64.0.1''])]"
  using service_lookup_result [of example_env example_client "''svc:test-service''" "[]"
      "[(''example.com'', [''svc:test-service''])]"]
    service_lookup_result [of example_env example_client "''svc:nonexistent''" "[]" "[]"]
    service_lookup_result [of example_env_empty example_client "''svc:test-service''" "[]" "[]"]
  by (simp add: run_update example_env_empty_def)

subsection \<open>Literal addresses\<close>

text \<open>
  \<^bold>\<open>C5\<close>. A configuration (a Go map, so its domains are distinct) in which no reference has
  the prefix \<^verbatim>\<open>svc:\<close> or \<^verbatim>\<open>device:\<close> resolves successfully to itself: one entry per domain,
  each with the references of the input, in their order, unchanged; nothing is called and
  nothing is logged, and the client is left as it was.
\<close>

theorem literal_config_passes_through:
  "distinct (map fst cfg) \<Longrightarrow>
   \<forall>ns\<in>set (refs cfg). \<not> HasPrefix ns ''svc:'' \<and> \<not> HasPrefix ns ''device:'' \<Longrightarrow>
   resolveSplitDNS env client cfg tr = (Inr cfg, tr, client)"
  using rd_literal [of "[]" cfg env client "[]" tr]
  by (simp add: resolveSplitDNS_def needsDevices_iff is_svc_def is_device_def)

theorem literal_config_passes_through_witness:
  "distinct (map fst [(''direct.example.com'', [''192.168.1.1'']),
                      (''multi.example.com'', [''192.168.1.1'', ''not an address''])])
   \<and> resolveSplitDNS example_env example_client
        [(''direct.example.com'', [''192.168.1.1'']),
         (''multi.example.com'', [''192.168.1.1'', ''not an address''])] []
      = (Inr [(''direct.example.com'', [''192.168.1.1'']),
              (''multi.example.com'', [''192.168.1.1'', ''not an address''])], [], example_client)"
  using literal_config_passes_through [of
      "[(''direct.example.com'', [''192.168.1.1'']),
        (''multi.example.com'', [''192.168.1.1'', ''not an address''])]"
      example_env example_client "[]"]
  by (simp add: refs_def HasPrefix_def)

subsection \<open>Credentials\<close>

text \<open>
  \<^bold>\<open>C6\<close>. A base URL that does not parse is an error. Otherwise the client uses OAuth client
  credentials, with the token endpoint at the base URL followed by
  \<^verbatim>\<open>/api/v2/oauth/token\<close>, exactly when client id and client secret are both non-empty;
  failing that it uses the API key when that is non-empty; failing that the result is
  the error \<^verbatim>\<open>need either api key or oauth creds\<close>.
\<close>

theorem createClient_credentials:
  "(\<forall>err. url_Parse env base = Inl err \<longrightarrow>
       fst (createClient env tn key cid secret base tr)
         = Inl (Errorf ''invalid base URL: %w'' [Err err]))
   \<and> (\<forall>u. url_Parse env base = Inr u \<longrightarrow>
         ((cid \<noteq> [] \<and> secret \<noteq> []) \<longleftrightarrow>
            (\<exists>c oc. fst (createClient env tn key cid secret base tr) = Inr c
                     \<and> HTTP c = Some (OAuthClient oc)))
         \<and> (cid \<noteq> [] \<and> secret \<noteq> [] \<longrightarrow>
              fst (createClient env tn key cid secret base tr)
                = Inr \<lparr>Tailnet = tn, BaseURL = u, APIKey = [],
                       HTTP = Some (OAuthClient \<lparr>ClientID = cid, ClientSecret = secret,
                                                 TokenURL = base @ ''/api/v2/oauth/token''\<rparr>)\<rparr>)
         \<and> (\<not> (cid \<noteq> [] \<and> secret \<noteq> []) \<longrightarrow> key \<noteq> [] \<longrightarrow>
              fst (createClient env tn key cid secret base tr)
                = Inr \<lparr>Tailnet = tn, BaseURL = u, APIKey = key, HTTP = None\<rparr>)
         \<and> (\<not> (cid \<noteq> [] \<and> secret \<noteq> []) \<longrightarrow> key = [] \<longrightarrow>
              fst (createClient env tn key cid secret base tr)
                = Inl (Errorf ''need either api key or oauth creds'' [])))"
proof (cases "url_Parse env base")
  case (Inl err)
  then show ?thesis by (simp add: createClient_def)
next
  case (Inr u)
  note parsed = Inr
  show ?thesis
  proof (cases "cid \<noteq> [] \<and> secret \<noteq> []")
    case True
    with parsed show ?thesis by (simp add: createClient_def Let_def)
  next
    case False
    note no_oauth = False
    show ?thesis
    proof (cases "key = []")
      case True
      with parsed no_oauth show ?thesis by (auto simp: createClient_def Let_def)
    next
      case False
      with parsed no_oauth show ?thesis by (auto simp: createClient_def Let_def)
    qed
  qed
qed

theorem createClient_credentials_witness:
  "fst (createClient example_env ''example.com'' ''tskey-api-test'' [] [] ''://invalid-url'' [])
     = Inl (Errorf ''invalid base URL: %w'' [Err (External ''missing protocol scheme'')])
   \<and> fst (createClient example_env ''example.com'' ''tskey-api-test'' ''test-client-id''
            ''test-client-secret'' ''https://api.tailscale.com'' [])
       = Inr \<lparr>Tailnet = ''example.com'', BaseURL = URL ''https://api.tailscale.com'', APIKey = [],
              HTTP = Some (OAuthClient \<lparr>ClientID = ''test-client-id'',
                ClientSecret = ''test-client-secret'',
                TokenURL = ''https://api.tailscale.com/api/v2/oauth/token''\<rparr>)\<rparr>
   \<and> fst (createClient example_env ''example.com'' ''tskey-api-test'' ''test-client-id'' []
            ''https://api.tailscale.com'' [])
       = Inr \<lparr>Tailnet = ''example.com'', BaseURL = URL ''https://api.tailscale.com'',
              APIKey = ''tskey-api-test'', HTTP = None\<rparr>
   \<and> fst (createClient example_env ''example.com'' [] [] ''test-client-secret''
            ''https://api.tailscale.com'' [])
       = Inl (Errorf ''need either api key or oauth creds'' [])"
  using createClient_credentials [of example_env "''://invalid-url''" "''example.com''"
      "''tskey-api-test''" "[]" "[]" "[]"]
    createClient_credentials [of example_env "''https://api.tailscale.com''" "''example.com''"
      "''tskey-api-test''" "''test-client-id''" "''test-client-secret''" "[]"]
    createClient_credentials [of example_env "''https://api.tailscale.com''" "''example.com''"
      "''tskey-api-test''" "''test-client-id''" "[]" "[]"]
    createClient_credentials [of example_env "''https://api.tailscale.com''" "''example.com''"
      "[]" "[]" "''test-client-secret''" "[]"]
  by (simp add: example_env_def)

subsection \<open>Exit behaviour\<close>

text \<open>
  \<^bold>\<open>C7\<close>. A failure to load the configuration or to build the client ends the process with
  status 1 in both modes. Without a positive interval the process runs one cycle and exits
  with status 1 when it fails (with status 0 otherwise). With a positive interval the
  process is still running after any number of ticks: its log is that of the first cycle
  and one cycle per tick, each further tick runs one more cycle from the state (log and
  client) that the earlier ones left, and a cycle that fails only adds the line
  \<^verbatim>\<open>Error updating DNS\<close> to the log.
\<close>

theorem exit_behaviour:
  "(\<forall>err. loadConfig env (configPath fl) = Inl err \<longrightarrow> fst (main env fl ticks) = Exit 1)
   \<and> (\<forall>cfg err tr.
         loadConfig env (configPath fl) = Inr cfg \<longrightarrow>
         createClient env (tailnet fl) (apiKey fl) (clientID fl) (clientSecret fl) (baseURL fl) []
           = (Inl err, tr) \<longrightarrow>
         fst (main env fl ticks) = Exit 1)
   \<and> (\<forall>cfg client tr.
         loadConfig env (configPath fl) = Inr cfg \<longrightarrow>
         createClient env (tailnet fl) (apiKey fl) (clientID fl) (clientSecret fl) (baseURL fl) []
           = (Inr client, tr) \<longrightarrow>
           (\<not> 0 < interval fl \<longrightarrow>
              (\<forall>err. fst (updateDNS env client cfg tr) = Some err \<longrightarrow>
                 fst (main env fl ticks) = Exit 1)
              \<and> (fst (updateDNS env client cfg tr) = None \<longrightarrow> fst (main env fl ticks) = Exit 0))
           \<and> (0 < interval fl \<longrightarrow>
                fst (main env fl ticks) = Running
                \<and> snd (main env fl ticks)
                    = fst (ticker_loop env cfg ticks
                             (runUpdate env cfg
                                (tr @ [Printf ''Running in daemon mode with interval: %v''
                                         [Num (interval fl)]], client)))
                \<and> snd (main env fl (Suc ticks))
                    = fst (runUpdate env cfg
                             (ticker_loop env cfg ticks
                                (runUpdate env cfg
                                   (tr @ [Printf ''Running in daemon mode with interval: %v''
                                            [Num (interval fl)]], client))))
                \<and> (\<forall>err tr0 client0 tr' client'.
                      updateDNS env client0 cfg tr0 = (Some err, tr', client') \<longrightarrow>
                      runUpdate env cfg (tr0, client0)
                        = (tr' @ [Printf ''Error updating DNS: %v'' [Err err]], client'))))"
proof (intro conjI allI impI)
  fix err assume "loadConfig env (configPath fl) = Inl err"
  then show "fst (main env fl ticks) = Exit 1" by (simp add: main_def)
next
  fix cfg err tr
  assume "loadConfig env (configPath fl) = Inr cfg"
    and "createClient env (tailnet fl) (apiKey fl) (clientID fl) (clientSecret fl) (baseURL fl) []
           = (Inl err, tr)"
  then show "fst (main env fl ticks) = Exit 1" by (simp add: main_def)
next
  fix cfg client tr
  assume cfg: "loadConfig env (configPath fl) = Inr cfg"
    and cl: "createClient env (tailnet fl) (apiKey fl) (clientID fl) (clientSecret fl) (baseURL fl) []
           = (Inr client, tr)"
  {
    fix err
    assume "\<not> 0 < interval fl" and "fst (updateDNS env client cfg tr) = Some err"
    with cfg cl show "fst (main env fl ticks) = Exit 1"
      by (cases "updateDNS env client cfg tr") (auto simp: main_def)
  }
  {
    assume "\<not> 0 < interval fl" and "fst (updateDNS env client cfg tr) = None"
    with cfg cl show "fst (main env fl ticks) = Exit 0"
      by (cases "updateDNS env client cfg tr") (auto simp: main_def)
  }
  {
    assume "0 < interval fl"
    with cfg cl show "fst (main env fl ticks) = Running"
      by (simp add: main_def)
  }
  {
    assume "0 < interval fl"
    with cfg cl show "snd (main env fl ticks)
                    = fst (ticker_loop env cfg ticks
                             (runUpdate env cfg
                                (tr @ [Printf ''Running in daemon mode with interval: %v''
                                         [Num (interval fl)]], client)))"
      by (simp add: main_def)
  }
  {
    assume "0 < interval fl"
    with cfg cl show "snd (main env fl (Suc ticks))
                    = fst (runUpdate env cfg
                             (ticker_loop env cfg ticks
                                (runUpdate env cfg
                                   (tr @ [Printf ''Running in daemon mode with interval: %v''
                                            [Num (interval fl)]], client))))"
      by (simp only: main_def ticker_loop_Suc) simp
  }
  {
    fix err tr0 client0 tr' client'
    assume "0 < interval fl" and "updateDNS env client0 cfg tr0 = (Some err, tr', client')"
    then show "runUpdate env cfg (tr0, client0)
                        = (tr' @ [Printf ''Error updating DNS: %v'' [Err err]], client')"
      by (simp add: runUpdate_def)
  }
qed

theorem exit_behaviour_witness:
  "fst (main example_env (example_flags\<lparr>configPath := ''/nonexistent/config.json'',
                                        interval := 300\<rparr>) 2) = Exit 1
   \<and> fst (main example_env (example_flags\<lparr>apiKey := [], interval := 300\<rparr>) 2) = Exit 1
   \<and> fst (main example_env (example_flags\<lparr>tailnet := ''other''\<rparr>) 0) = Exit 1
   \<and> fst (main example_env example_flags 0) = Exit 0
   \<and> fst (main example_env (example_flags\<lparr>tailnet := ''other'', interval := 300\<rparr>) 2) = Running
   \<and> snd (main example_env (example_flags\<lparr>tailnet := ''other'', interval := 300\<rparr>) (Suc 2))
       = fst (runUpdate example_env [(''service.example.com'', [''svc:test-service''])]
                (ticker_loop example_env [(''service.example.com'', [''svc:test-service''])] 2
                   (runUpdate example_env [(''service.example.com'', [''svc:test-service''])]
                      ([Println ''Using API key authentication'',
                        Printf ''Running in daemon mode with interval: %v'' [Num 300]],
                       example_client\<lparr>Tailnet := ''other''\<rparr>))))
   \<and> runUpdate example_env [(''service.example.com'', [''svc:test-service''])]
         ([], example_client\<lparr>Tailnet := ''other''\<rparr>)
       = (fst (snd (updateDNS example_env (example_client\<lparr>Tailnet := ''other''\<rparr>)
                      [(''service.example.com'', [''svc:test-service''])] []))
          @ [Printf ''Error updating DNS: %v''
               [Err (Errorf ''resolving services: %w''
                  [Err (Errorf ''resolving service %s: %w''
                     [Str ''svc:test-service'',
                      Err (Errorf ''API returned status %d'' [Num 404])])])]],
          example_client\<lparr>Tailnet := ''other''\<rparr>)"
proof -
  let ?cfg = "[(''service.example.com'', [''svc:test-service''])]"
  let ?other = "example_client\<lparr>Tailnet := ''other''\<rparr>"
  let ?err = "Errorf ''resolving services: %w''
                 [Err (Errorf ''resolving service %s: %w''
                    [Str ''svc:test-service'',
                     Err (Errorf ''API returned status %d'' [Num 404])])]"
  have noconfig: "loadConfig example_env ''/nonexistent/config.json''
      = Inl (Errorf ''reading config file: %w'' [Err (External ''no such file or directory'')])"
    by (simp add: loadConfig_def example_env_def)
  have config: "loadConfig example_env ''/config.json'' = Inr ?cfg"
    by (simp add: loadConfig_def example_env_def)
  have nocreds: "createClient example_env ''test'' [] [] [] ''https://api.tailscale.com'' []
      = (Inl (Errorf ''need either api key or oauth creds'' []), [])"
    by (simp add: createClient_def example_env_def)
  have cl: "createClient example_env ''test'' ''test-key'' [] [] ''https://api.tailscale.com'' []
      = (Inr example_client, [Println ''Using API key authentication''])"
    by (simp add: createClient_def example_env_def example_client_def)
  have cl': "createClient example_env ''other'' ''test-key'' [] [] ''https://api.tailscale.com'' []
      = (Inr ?other, [Println ''Using API key authentication''])"
    by (simp add: createClient_def example_env_def example_client_def)
  have good: "fst (updateDNS example_env example_client ?cfg
      [Println ''Using API key authentication'']) = None"
    by (simp add: run_update)
  have bad: "fst (updateDNS example_env ?other ?cfg [Println ''Using API key authentication''])
      = Some ?err"
    by (simp add: run_update)
  have bad0: "updateDNS example_env ?other ?cfg []
      = (Some ?err, fst (snd (updateDNS example_env ?other ?cfg [])), ?other)"
    by (simp add: run_update)
  have 1: "fst (main example_env (example_flags\<lparr>configPath := ''/nonexistent/config.json'',
                                        interval := 300\<rparr>) 2) = Exit 1"
    using exit_behaviour [of example_env "example_flags\<lparr>configPath := ''/nonexistent/config.json'',
                                        interval := 300\<rparr>" 2] noconfig
    by (simp add: example_flags_def)
  have 2: "fst (main example_env (example_flags\<lparr>apiKey := [], interval := 300\<rparr>) 2) = Exit 1"
    using exit_behaviour [of example_env "example_flags\<lparr>apiKey := [], interval := 300\<rparr>" 2]
      config nocreds
    by (simp add: example_flags_def)
  have 3: "fst (main example_env (example_flags\<lparr>tailnet := ''other''\<rparr>) 0) = Exit 1"
    using exit_behaviour [of example_env "example_flags\<lparr>tailnet := ''other''\<rparr>" 0]
      config cl' bad
    by (simp add: example_flags_def)
  have 4: "fst (main example_env example_flags 0) = Exit 0"
    using exit_behaviour [of example_env example_flags 0] config cl good
    by (simp add: example_flags_def)
  have 5: "fst (main example_env (example_flags\<lparr>tailnet := ''other'', interval := 300\<rparr>) 2) = Running
    \<and> snd (main example_env (example_flags\<lparr>tailnet := ''other'', interval := 300\<rparr>) (Suc 2))
       = fst (runUpdate example_env ?cfg
                (ticker_loop example_env ?cfg 2
                   (runUpdate example_env ?cfg
                      ([Println ''Using API key authentication'',
                        Printf ''Running in daemon mode with interval: %v'' [Num 300]], ?other))))
    \<and> runUpdate example_env ?cfg ([], ?other)
       = (fst (snd (updateDNS example_env ?other ?cfg []))
            @ [Printf ''Error updating DNS: %v'' [Err ?err]], ?other)"
    using exit_behaviour [of example_env "example_flags\<lparr>tailnet := ''other'', interval := 300\<rparr>" 2]
      config cl' bad0
    by (simp add: example_flags_def)
  from 1 2 3 4 5 show ?thesis by blast
qed

subsection \<open>One lookup per service reference\<close>

text \<open>
  \<^bold>\<open>C8\<close> (as amended). A pass that succeeds performs as many service lookups as the
  configuration has occurrences of references with the prefix \<^verbatim>\<open>svc:\<close>, repeated ones counted
  each time; a pass that aborts performs at most that many, since the references after the
  failure are never reached.
\<close>

theorem one_lookup_per_service_reference:
  "length (lookup_urls (emitted tr (fst (snd (resolveSplitDNS env client cfg tr)))))
     \<le> length (filter is_svc (refs cfg))
   \<and> (\<forall>t. fst (resolveSplitDNS env client cfg tr) = Inr t \<longrightarrow>
         length (lookup_urls (emitted tr (fst (snd (resolveSplitDNS env client cfg tr)))))
           = length (filter is_svc (refs cfg)))"
proof -
  let ?urls = "lookup_urls (emitted tr (fst (snd (resolveSplitDNS env client cfg tr))))"
  have "prefix ?urls (map (service_url (snd (snd (resolveSplitDNS env client cfg tr)))) (filter is_svc (refs cfg)))"
    using rs_urls [of tr env client cfg] by blast
  then have "length ?urls \<le> length (map (service_url (snd (snd (resolveSplitDNS env client cfg tr)))) (filter is_svc (refs cfg)))"
    by (rule prefix_length_le)
  moreover have "\<forall>t. fst (resolveSplitDNS env client cfg tr) = Inr t \<longrightarrow>
      length ?urls = length (map (service_url (snd (snd (resolveSplitDNS env client cfg tr)))) (filter is_svc (refs cfg)))"
    using rs_urls [of tr env client cfg] by metis
  ultimately show ?thesis by simp
qed

theorem one_lookup_per_service_reference_witness:
  "fst (resolveSplitDNS example_env example_client
          [(''a.example.com'', [''svc:test-service'', ''svc:test-service'']),
           (''b.example.com'', [''svc:test-service''])] [])
     = Inr [(''a.example.com'', [''100.64.0.1'', ''100.64.0.1'']),
            (''b.example.com'', [''100.64.0.1''])]
   \<and> length (lookup_urls (emitted [] (fst (snd (resolveSplitDNS example_env example_client
          [(''a.example.com'', [''svc:test-service'', ''svc:test-service'']),
           (''b.example.com'', [''svc:test-service''])] []))))) = 3"
  using one_lookup_per_service_reference [of "[]" example_env example_client
      "[(''a.example.com'', [''svc:test-service'', ''svc:test-service'']),
        (''b.example.com'', [''svc:test-service''])]"]
  by (simp add: run_example)

theorem lookup_count_counterexample:
  "length (lookup_urls (emitted [] (fst (snd (resolveSplitDNS example_env example_client
          [(''a.example.com'', [''svc:other'', ''svc:test-service''])] []))))) = 1
   \<and> length (filter is_svc (refs [(''a.example.com'', [''svc:other'', ''svc:test-service''])])) = 2
   \<and> length (lookup_urls (emitted [] (fst (snd (resolveSplitDNS example_env example_client
          [(''a.example.com'', [''svc:other'', ''svc:test-service''])] [])))))
       \<noteq> length (filter is_svc (refs [(''a.example.com'', [''svc:other'', ''svc:test-service''])]))"
  by (simp add: run_example)

subsection \<open>What the lookups are keyed by\<close>

text \<open>
  \<^bold>\<open>C9\<close>. The lookups of a pass read the client as the pass leaves it: the client given,
  or what the accessor for the device list made of it when that list is fetched. The URLs
  of the lookups are, in order, those built from the references with the prefix
  \<^verbatim>\<open>svc:\<close>, each reference standing in the URL as it is written, prefix included. The
  names given to the device matching are, in order, the references with the prefix
  \<^verbatim>\<open>device:\<close>, each with that prefix removed, and in the table of a successful pass the
  address of such a reference is the one that the name without the prefix matches in the
  fetched list (a literal stands for itself). A pass that aborts gives an initial segment
  of the URLs and of the names.
\<close>

theorem lookup_keys_and_device_names:
  "snd (snd (resolveSplitDNS env client cfg tr))
     = (if \<exists>ns\<in>set (refs cfg). HasPrefix ns ''device:''
        then client_Devices env tr client else client)
   \<and> prefix (lookup_urls (emitted tr (fst (snd (resolveSplitDNS env client cfg tr)))))
       (map (\<lambda>ns. url_String (BaseURL (snd (snd (resolveSplitDNS env client cfg tr))))
                    @ ''/api/v2/tailnet/''
                    @ Tailnet (snd (snd (resolveSplitDNS env client cfg tr)))
                    @ ''/services/'' @ ns @ ''/'')
          (filter (\<lambda>ns. HasPrefix ns ''svc:'') (refs cfg)))
   \<and> prefix (map fst (device_calls (emitted tr (fst (snd (resolveSplitDNS env client cfg tr))))))
       (map (\<lambda>ns. TrimPrefix ns ''device:'') (filter (\<lambda>ns. HasPrefix ns ''device:'') (refs cfg)))
   \<and> (\<forall>t. fst (resolveSplitDNS env client cfg tr) = Inr t \<longrightarrow>
         lookup_urls (emitted tr (fst (snd (resolveSplitDNS env client cfg tr))))
           = map (\<lambda>ns. url_String (BaseURL (snd (snd (resolveSplitDNS env client cfg tr))))
                        @ ''/api/v2/tailnet/''
                        @ Tailnet (snd (snd (resolveSplitDNS env client cfg tr)))
                        @ ''/services/'' @ ns @ ''/'')
               (filter (\<lambda>ns. HasPrefix ns ''svc:'') (refs cfg))
         \<and> map fst (device_calls (emitted tr (fst (snd (resolveSplitDNS env client cfg tr)))))
           = map (\<lambda>ns. TrimPrefix ns ''device:'')
               (filter (\<lambda>ns. HasPrefix ns ''device:'') (refs cfg))
         \<and> (\<forall>devs. distinct (map fst cfg) \<longrightarrow>
               (if \<exists>ns\<in>set (refs cfg). HasPrefix ns ''device:''
                then devices_List env tr (client_Devices env tr client) = Inr devs
                else devs = []) \<longrightarrow>
               resolved_refs devs cfg t))
   \<and> (HasPrefix ns ''device:'' \<longrightarrow> ''device:'' @ TrimPrefix ns ''device:'' = ns)"
proof -
  let ?new = "emitted tr (fst (snd (resolveSplitDNS env client cfg tr)))"
  let ?client = "snd (snd (resolveSplitDNS env client cfg tr))"
  have svc: "is_svc = (\<lambda>ns. HasPrefix ns ''svc:'')" and dev: "is_device = (\<lambda>ns. HasPrefix ns ''device:'')"
    by (simp_all add: fun_eq_iff is_svc_def is_device_def)
  have url: "service_url ?client
      = (\<lambda>ns. url_String (BaseURL ?client) @ ''/api/v2/tailnet/'' @ Tailnet ?client
                  @ ''/services/'' @ ns @ ''/'')"
    by (simp add: fun_eq_iff service_url_def)
  have cl: "?client = (if \<exists>ns\<in>set (refs cfg). is_device ns
                       then client_Devices env tr client else client)"
    by (rule resolveSplitDNS_client)
  have names: "prefix (map fst (device_calls ?new))
        (map (\<lambda>ns. TrimPrefix ns ''device:'') (filter is_device (refs cfg)))
     \<and> (\<forall>t. fst (resolveSplitDNS env client cfg tr) = Inr t \<longrightarrow>
          map fst (device_calls ?new)
            = map (\<lambda>ns. TrimPrefix ns ''device:'') (filter is_device (refs cfg)))"
  proof (cases rule: rs_device_calls [of tr env client cfg])
    case none
    then show ?thesis by simp
  next
    case (fetched devs evs)
    from fetched(3) have "prefix (map fst (device_calls ?new))
        (map fst (map (\<lambda>ns. (TrimPrefix ns ''device:'', devs)) (filter is_device (refs cfg))))"
      by (rule map_mono_prefix)
    moreover have "\<forall>t. fst (resolveSplitDNS env client cfg tr) = Inr t \<longrightarrow>
          map fst (device_calls ?new)
            = map fst (map (\<lambda>ns. (TrimPrefix ns ''device:'', devs)) (filter is_device (refs cfg)))"
      using fetched(4) by metis
    ultimately show ?thesis by (simp add: comp_def)
  qed
  have table: "\<forall>t devs. fst (resolveSplitDNS env client cfg tr) = Inr t \<longrightarrow>
      distinct (map fst cfg) \<longrightarrow>
      (if \<exists>ns\<in>set (refs cfg). is_device ns
       then devices_List env tr (client_Devices env tr client) = Inr devs else devs = []) \<longrightarrow>
      resolved_refs devs cfg t"
    using rs_resolved [of env client cfg tr] by blast
  show ?thesis
    using rs_urls [of tr env client cfg] names table cl
      HasPrefix_TrimPrefix [of ns "''device:''"]
    unfolding svc dev url by blast
qed

theorem lookup_keys_and_device_names_witness:
  "fst (resolveSplitDNS example_env (example_client\<lparr>Tailnet := []\<rparr>)
          [(''a.example.com'', [''device:test-device'', ''svc:test-service'', ''192.168.1.1''])] [])
     = Inr [(''a.example.com'', [''100.64.0.2'', ''100.64.0.1'', ''192.168.1.1''])]
   \<and> snd (snd (resolveSplitDNS example_env (example_client\<lparr>Tailnet := []\<rparr>)
          [(''a.example.com'', [''device:test-device'', ''svc:test-service'', ''192.168.1.1''])] []))
     = example_client\<lparr>Tailnet := ''-''\<rparr>
   \<and> lookup_urls (emitted [] (fst (snd (resolveSplitDNS example_env (example_client\<lparr>Tailnet := []\<rparr>)
          [(''a.example.com'', [''device:test-device'', ''svc:test-service'', ''192.168.1.1''])] []))))
     = [''https://api.tailscale.com/api/v2/tailnet/-/services/svc:test-service/'']
   \<and> map fst (device_calls (emitted [] (fst (snd (resolveSplitDNS example_env
          (example_client\<lparr>Tailnet := []\<rparr>)
          [(''a.example.com'', [''device:test-device'', ''svc:test-service'', ''192.168.1.1''])] [])))))
     = [''test-device'']
   \<and> resolved_refs [\<lparr>dev_Name = [], Hostname = ''test-device'', Addresses = [''100.64.0.2'']\<rparr>]
        [(''a.example.com'', [''device:test-device'', ''svc:test-service'', ''192.168.1.1''])]
        [(''a.example.com'', [''100.64.0.2'', ''100.64.0.1'', ''192.168.1.1''])]
   \<and> snd (snd (resolveSplitDNS example_env (example_client\<lparr>Tailnet := []\<rparr>)
          [(''b.example.com'', [''svc:test-service''])] []))
     = example_client\<lparr>Tailnet := []\<rparr>
   \<and> lookup_urls (emitted [] (fst (snd (resolveSplitDNS example_env (example_client\<lparr>Tailnet := []\<rparr>)
          [(''b.example.com'', [''svc:test-service''])] []))))
     = [''https://api.tailscale.com/api/v2/tailnet//services/svc:test-service/'']
   \<and> HasPrefix ''device:test-device'' ''device:''
   \<and> ''device:'' @ TrimPrefix ''device:test-device'' ''device:'' = ''device:test-device''"
  using lookup_keys_and_device_names [of example_env "example_client\<lparr>Tailnet := []\<rparr>"
      "[(''a.example.com'', [''device:test-device'', ''svc:test-service'', ''192.168.1.1''])]"
      "[]" "''device:test-device''"]
    lookup_keys_and_device_names [of example_env "example_client\<lparr>Tailnet := []\<rparr>"
      "[(''b.example.com'', [''svc:test-service''])]" "[]" "''device:test-device''"]
  by (simp add: run_example resolved_refs_def resolved_ref_def matching_address_def)

subsection \<open>Device matching runs on the fetched list\<close>

text \<open>
  \<^bold>\<open>C10\<close>. The first pair of loops answers exactly whether some reference has the prefix
  \<^verbatim>\<open>device:\<close>, the test that selects the device branch. Hence every call of the device
  matching in a pass runs on the list that the fetch of this pass returned (asked of the
  client as the accessor left it), the fetch being the first event of the pass, and on
  the name of a reference with that prefix; a configuration without such references
  leads to no call and no fetch.
\<close>

theorem device_matching_only_after_fetch:
  "(needsDevices cfg \<longleftrightarrow> (\<exists>ns\<in>set (refs cfg). HasPrefix ns ''device:''))
   \<and> ((name, devs) \<in> set (device_calls (emitted tr (fst (snd (resolveSplitDNS env client cfg tr)))))
        \<longrightarrow> devices_List env tr (client_Devices env tr client) = Inr devs
            \<and> (\<exists>evs. emitted tr (fst (snd (resolveSplitDNS env client cfg tr))) = Devices_List # evs)
            \<and> (\<exists>ns\<in>set (refs cfg). HasPrefix ns ''device:'' \<and> name = TrimPrefix ns ''device:''))
   \<and> (\<not> (\<exists>ns\<in>set (refs cfg). HasPrefix ns ''device:'')
        \<longrightarrow> device_calls (emitted tr (fst (snd (resolveSplitDNS env client cfg tr)))) = []
            \<and> count_list (emitted tr (fst (snd (resolveSplitDNS env client cfg tr)))) Devices_List = 0)"
proof (intro conjI impI)
  show "needsDevices cfg \<longleftrightarrow> (\<exists>ns\<in>set (refs cfg). HasPrefix ns ''device:'')"
    by (simp add: needsDevices_iff is_device_def)
next
  let ?new = "emitted tr (fst (snd (resolveSplitDNS env client cfg tr)))"
  assume call: "(name, devs) \<in> set (device_calls ?new)"
  then obtain ds evs where ds: "devices_List env tr (client_Devices env tr client) = Inr ds"
    and evs: "?new = Devices_List # evs"
    and p: "prefix (device_calls ?new)
         (map (\<lambda>ns. (TrimPrefix ns ''device:'', ds)) (filter is_device (refs cfg)))"
    by (cases rule: rs_device_calls [of tr env client cfg]) auto
  from p call have "(name, devs)
      \<in> set (map (\<lambda>ns. (TrimPrefix ns ''device:'', ds)) (filter is_device (refs cfg)))"
    using set_mono_prefix by blast
  then have eq: "devs = ds" and ns: "\<exists>ns\<in>set (refs cfg). HasPrefix ns ''device:'' \<and> name = TrimPrefix ns ''device:''"
    by (auto simp: is_device_def)
  from ds eq show "devices_List env tr (client_Devices env tr client) = Inr devs" by simp
  from evs show "\<exists>evs. ?new = Devices_List # evs" by blast
  from ns show "\<exists>ns\<in>set (refs cfg). HasPrefix ns ''device:'' \<and> name = TrimPrefix ns ''device:''" .
next
  let ?new = "emitted tr (fst (snd (resolveSplitDNS env client cfg tr)))"
  assume no: "\<not> (\<exists>ns\<in>set (refs cfg). HasPrefix ns ''device:'')"
  then have empty: "filter is_device (refs cfg) = []"
    by (auto simp: filter_empty_conv is_device_def)
  show "device_calls ?new = []"
    by (cases rule: rs_device_calls [of tr env client cfg]) (simp_all add: empty)
  show "count_list ?new Devices_List = 0"
    using rs_fetch_count [of tr env client cfg] no by (simp add: is_device_def)
qed

theorem device_matching_only_after_fetch_witness:
  "needsDevices [(''a.example.com'', [''192.168.1.1'', ''device:test-device''])]
   \<and> (''test-device'', [\<lparr>dev_Name = [], Hostname = ''test-device'', Addresses = [''100.64.0.2'']\<rparr>])
        \<in> set (device_calls (emitted [] (fst (snd (resolveSplitDNS example_env example_client
               [(''a.example.com'', [''192.168.1.1'', ''device:test-device''])] [])))))
   \<and> devices_List example_env [] (client_Devices example_env [] example_client)
        = Inr [\<lparr>dev_Name = [], Hostname = ''test-device'', Addresses = [''100.64.0.2'']\<rparr>]
   \<and> \<not> needsDevices [(''b.example.com'', [''svc:test-service''])]
   \<and> device_calls (emitted [] (fst (snd (resolveSplitDNS example_env example_client
        [(''b.example.com'', [''svc:test-service''])] [])))) = []
   \<and> count_list (emitted [] (fst (snd (resolveSplitDNS example_env example_client
        [(''b.example.com'', [''svc:test-service''])] [])))) Devices_List = 0"
  using device_matching_only_after_fetch [of
      "[(''a.example.com'', [''192.168.1.1'', ''device:test-device''])]" "''test-device''"
      "[\<lparr>dev_Name = [], Hostname = ''test-device'', Addresses = [''100.64.0.2'']\<rparr>]"
      "[]" example_env example_client]
    device_matching_only_after_fetch [of "[(''b.example.com'', [''svc:test-service''])]"
      "''x''" "[]" "[]" example_env example_client]
  by (simp add: run_example)

end
